theory Spec2Isabelle
  imports Complex_Main "HOL-Library.Multiset"
begin

section \<open>The corpus loader of Log_Reg_Classifier.py\<close>

text \<open>
  The script is Python 2. Byte strings are \<^typ>\<open>string\<close>, Python integers are
  \<^typ>\<open>int\<close>, every exception is a value of \<open>error\<close>, and a function that can raise
  returns \<open>error + 'a\<close> with \<open>Inl\<close> for the exception.
\<close>

datatype error = IOError | UnicodeDecodeError | IndexError | ValueError

subsection \<open>Module constants\<close>

definition DEP :: string where
  "DEP = ''./mixed_depression''"

definition NON_DEP :: string where
  "NON_DEP = ''./mixed_non_depression''"

definition ANALYZER :: string where
  "ANALYZER = ''word''"

definition NGRAM_MAX :: nat where
  "NGRAM_MAX = 3"

definition PENALTY :: string where
  "PENALTY = ''l1''"

definition KFOLD_SPLITS :: nat where
  "KFOLD_SPLITS = 10"

definition EVAL_AVERAGE :: string where
  "EVAL_AVERAGE = ''binary''"

subsection \<open>Python string and file primitives\<close>

text \<open>
  \<open>str.strip()\<close> without argument removes leading and trailing whitespace bytes:
  space, tab, line feed, vertical tab, form feed and carriage return.
\<close>

definition isspace :: "char \<Rightarrow> bool" where
  "isspace c = (c \<in> {CHR '' '', CHR 0x09, CHR 0x0A, CHR 0x0B, CHR 0x0C, CHR 0x0D})"

definition strip :: "string \<Rightarrow> string" where
  "strip s = rev (dropWhile isspace (rev (dropWhile isspace s)))"

text \<open>
  Iterating an open file yields its lines in order, each with its terminating line feed;
  a last line without line feed is yielded as it is, and an empty file yields nothing.
  \<open>split_lines cur s\<close> carries the bytes of the line being read in \<open>cur\<close>.
\<close>

fun split_lines :: "string \<Rightarrow> string \<Rightarrow> string list" where
  "split_lines cur [] = (if cur = [] then [] else [cur])"
| "split_lines cur (c # cs) =
     (if c = CHR 0x0A then (cur @ [c]) # split_lines [] cs
      else split_lines (cur @ [c]) cs)"

definition readlines :: "string \<Rightarrow> string list" where
  "readlines content = split_lines [] content"

text \<open>
  \<open>os.path.join(a, b)\<close> of \<open>posixpath\<close> for two components: an absolute \<open>b\<close> replaces
  \<open>a\<close>; otherwise \<open>b\<close> is appended, after a slash unless \<open>a\<close> is empty or ends in one.
\<close>

definition os_path_join :: "string \<Rightarrow> string \<Rightarrow> string" where
  "os_path_join a b =
     (if take 1 b = ''/'' then b
      else if a = [] \<or> last a = CHR ''/'' then a @ b
      else a @ ''/'' @ b)"

text \<open>
  \<open>random.shuffle(x)\<close> is the exchange loop of the standard library,
  \<^verbatim>\<open>for i in reversed(xrange(1, len(x))): j = int(random() * (i+1)); x[i], x[j] = x[j], x[i]\<close>.
  The random source is the parameter \<open>pick\<close>: in the round for \<open>i\<close> the index drawn is
  \<open>pick i mod (i + 1)\<close>, which ranges over \<open>0..i\<close> as \<open>int(random() * (i+1))\<close> does.
\<close>

fun random_shuffle_loop :: "(nat \<Rightarrow> nat) \<Rightarrow> nat list \<Rightarrow> 'a list \<Rightarrow> 'a list" where
  "random_shuffle_loop pick [] x = x"
| "random_shuffle_loop pick (i # is) x =
     (let j = pick i mod (i + 1)
      in random_shuffle_loop pick is (x[i := x ! j, j := x ! i]))"

definition random_shuffle :: "(nat \<Rightarrow> nat) \<Rightarrow> 'a list \<Rightarrow> 'a list" where
  "random_shuffle pick x = random_shuffle_loop pick (rev [1..<length x]) x"

subsection \<open>process_post\<close>

text \<open>
  The file system is a map from paths to file contents; \<open>open\<close> raises \<open>IOError\<close> on a
  path that is not in it. The per-line recoding
  \<^verbatim>\<open>line.decode('unicode-escape').encode('utf-8')\<close> belongs to the Python codecs and
  is the parameter \<open>decode\<close>; it raises on a malformed escape sequence.
\<close>

fun post_loop :: "(string \<Rightarrow> error + string) \<Rightarrow> string list \<Rightarrow> string \<Rightarrow> error + string" where
  "post_loop decode [] text = Inr text"
| "post_loop decode (line # rest) text =
     (if strip line \<noteq> [] then
        (case decode line of
           Inl e \<Rightarrow> Inl e
         | Inr line' \<Rightarrow> post_loop decode rest (text @ strip line' @ '' ''))
      else post_loop decode rest text)"

definition process_post ::
  "(string \<rightharpoonup> string) \<Rightarrow> (string \<Rightarrow> error + string) \<Rightarrow> string \<Rightarrow> error + string" where
  "process_post fs decode file_path =
     (case fs file_path of
        None \<Rightarrow> Inl IOError
      | Some content \<Rightarrow> post_loop decode (readlines content) [])"

subsection \<open>construct_data\<close>

record bunch =
  filenames :: "string list"
  filepath :: "string list"
  data :: "string list"
  target :: "int list"

text \<open>
  One round of the loop over \<open>index\<close>. The state is the bunch being filled together with
  the list of paths handed to \<open>open\<close> so far, which stays available when the round raises.
  Both subscripts are in range in every run; the model still says what Python does
  otherwise.
\<close>

definition construct_step ::
  "(string \<rightharpoonup> string) \<Rightarrow> (string \<Rightarrow> error + string) \<Rightarrow> string list \<Rightarrow> string \<Rightarrow> string \<Rightarrow>
     nat \<Rightarrow> string list \<times> bunch \<Rightarrow> string list \<times> (error + bunch)" where
  "construct_step fs decode dep_fnames dep_dir non_dep_dir index s =
     (case s of (opened, d) \<Rightarrow>
        if index < length (filenames d) then
          (let fn = filenames d ! index;
               d1 = (if fn \<in> set dep_fnames
                     then d\<lparr>target := target d @ [0],
                            filepath := filepath d @ [os_path_join dep_dir fn]\<rparr>
                     else d\<lparr>target := target d @ [1],
                            filepath := filepath d @ [os_path_join non_dep_dir fn]\<rparr>)
           in if index < length (filepath d1) then
                (let f_path = filepath d1 ! index
                 in (opened @ [f_path],
                     case process_post fs decode f_path of
                       Inl e \<Rightarrow> Inl e
                     | Inr post_text \<Rightarrow> Inr (d1\<lparr>data := data d1 @ [post_text]\<rparr>)))
              else (opened, Inl IndexError))
        else (opened, Inl IndexError))"

fun construct_loop ::
  "(string \<rightharpoonup> string) \<Rightarrow> (string \<Rightarrow> error + string) \<Rightarrow> string list \<Rightarrow> string \<Rightarrow> string \<Rightarrow>
     nat list \<Rightarrow> string list \<times> bunch \<Rightarrow> string list \<times> (error + bunch)" where
  "construct_loop fs decode dep_fnames dep_dir non_dep_dir [] s = (fst s, Inr (snd s))"
| "construct_loop fs decode dep_fnames dep_dir non_dep_dir (index # rest) s =
     (case construct_step fs decode dep_fnames dep_dir non_dep_dir index s of
        (opened, Inl e) \<Rightarrow> (opened, Inl e)
      | (opened, Inr d) \<Rightarrow>
          construct_loop fs decode dep_fnames dep_dir non_dep_dir rest (opened, d))"

definition construct_data ::
  "(string \<rightharpoonup> string) \<Rightarrow> (string \<Rightarrow> error + string) \<Rightarrow> (nat \<Rightarrow> nat) \<Rightarrow>
     string list \<Rightarrow> string list \<Rightarrow> string \<Rightarrow> string \<Rightarrow> string list \<times> (error + bunch)" where
  "construct_data fs decode pick dep_fnames non_dep_fnames dep_dir non_dep_dir =
     (let file_names = random_shuffle pick (dep_fnames @ non_dep_fnames);
          d = \<lparr>filenames = file_names, filepath = [], data = [], target = []\<rparr>
      in construct_loop fs decode dep_fnames dep_dir non_dep_dir
           [0..<length file_names] ([], d))"

section \<open>Vectorizers, training and cross-validated evaluation\<close>

text \<open>
  The vectorizers, the fold splitter, the classifier and the metrics are scikit-learn's
  and the matrices are SciPy's; none of them is part of the script. They are the fields
  of the record \<open>sklearn\<close>, a parameter of every function below: each field is one library
  call of the script, with the keyword arguments it is given. \<open>'x\<close> is the type of feature
  matrices and \<open>'m\<close> the type of fitted models. A call that draws random numbers (the
  splitter with \<open>shuffle=True\<close>, the solver of the classifier) is the field's value in the
  run considered. Scores are real numbers. Console output is not modelled.
\<close>

record vec_params =
  ngram_range :: "nat \<times> nat"
  analyzer :: string
  encoding :: string

record lr_params =
  penalty :: string
  class_weight :: string

text \<open>A two-dimensional float array: its number of columns and its rows.\<close>

type_synonym ndarray2 = "nat \<times> real list list"

record ('x, 'm) sklearn =
  count_fit_transform :: "vec_params \<Rightarrow> string list \<Rightarrow> error + 'x"
  tfidf_fit_transform :: "vec_params \<Rightarrow> string list \<Rightarrow> error + 'x"
  tfidf_transform :: "'x \<Rightarrow> error + 'x"
  shape :: "'x \<Rightarrow> nat \<times> nat"
  getrows :: "'x \<Rightarrow> nat list \<Rightarrow> error + 'x"
  skf_split :: "nat \<Rightarrow> bool \<Rightarrow> 'x \<Rightarrow> int list \<Rightarrow> error + (nat list \<times> nat list) list"
  lr_fit :: "lr_params \<Rightarrow> 'x \<Rightarrow> int list \<Rightarrow> error + 'm"
  lr_score :: "'m \<Rightarrow> 'x \<Rightarrow> int list \<Rightarrow> error + real"
  lr_predict_proba :: "'m \<Rightarrow> 'x \<Rightarrow> error + ndarray2"
  lr_predict :: "'m \<Rightarrow> 'x \<Rightarrow> error + int list"
  roc_auc_score :: "int list \<Rightarrow> real list \<Rightarrow> error + real"
  prf_evaluator ::
    "int list \<Rightarrow> int list \<Rightarrow> string \<Rightarrow> error + real \<times> real \<times> real \<times> nat list option"

text \<open>
  \<open>count_fit_transform p\<close> is \<open>CountVectorizer(...).fit_transform\<close> and
  \<open>tfidf_fit_transform p\<close> is \<open>TfidfVectorizer(...).fit_transform\<close>, both with the keyword
  arguments \<open>p\<close>; \<open>tfidf_transform\<close> is \<open>TfidfTransformer().fit_transform\<close>, which the
  script does not call and which only the library contract below mentions.
  \<open>shape\<close> is the attribute \<open>.shape\<close>, \<open>getrows x idx\<close> is \<open>x[idx]\<close> on a sparse matrix,
  \<open>skf_split n s\<close> is \<open>StratifiedKFold(n_splits=n, shuffle=s).split\<close> with all the pairs
  of train and test indices it yields, \<open>lr_fit p\<close> is \<open>LogisticRegression(...).fit\<close> with
  the keyword arguments \<open>p\<close>, and \<open>lr_score\<close>, \<open>lr_predict_proba\<close>, \<open>lr_predict\<close> are the
  methods \<open>score\<close>, \<open>predict_proba\<close> and \<open>predict\<close> of the fitted model.
\<close>

subsection \<open>NumPy primitives\<close>

text \<open>
  \<open>y[indices]\<close> on a one-dimensional array raises \<open>IndexError\<close> on an index out of range;
  \<open>a[:, 1]\<close> raises it on an array with fewer than two columns. \<open>np.mean\<close> of no values
  is \<open>nan\<close>, which is \<open>None\<close> here; of some values it is their sum over their number.
\<close>

definition np_take :: "'a list \<Rightarrow> nat list \<Rightarrow> error + 'a list" where
  "np_take a indices =
     (if list_all (\<lambda>i. i < length a) indices then Inr (map (\<lambda>i. a ! i) indices)
      else Inl IndexError)"

definition column1 :: "ndarray2 \<Rightarrow> error + real list" where
  "column1 a =
     (if 1 < fst a \<and> list_all (\<lambda>row. 1 < length row) (snd a)
      then Inr (map (\<lambda>row. row ! 1) (snd a))
      else Inl IndexError)"

definition np_mean :: "real list \<Rightarrow> real option" where
  "np_mean xs = (if xs = [] then None else Some (sum_list xs / real (length xs)))"

subsection \<open>make_count_vectors and make_tfidf_vectors\<close>

definition make_count_vectors :: "('x, 'm) sklearn \<Rightarrow> string list \<Rightarrow> error + 'x" where
  "make_count_vectors lib raw_data =
     count_fit_transform lib
       \<lparr>ngram_range = (1, NGRAM_MAX), analyzer = ANALYZER, encoding = ''utf8''\<rparr> raw_data"

definition make_tfidf_vectors :: "('x, 'm) sklearn \<Rightarrow> string list \<Rightarrow> error + 'x" where
  "make_tfidf_vectors lib raw_data =
     tfidf_fit_transform lib
       \<lparr>ngram_range = (1, NGRAM_MAX), analyzer = ANALYZER, encoding = ''utf8''\<rparr> raw_data"

subsection \<open>train_lr_model\<close>

text \<open>
  The calls of \<open>fit\<close> made so far are kept in a list, each with the configuration of the
  classifier and the training data it was given; \<open>train_lr_model\<close> adds its call to the
  list before the call returns or raises.
\<close>

type_synonym 'x fit_call = "lr_params \<times> 'x \<times> int list"

definition train_lr_model ::
  "('x, 'm) sklearn \<Rightarrow> 'x \<Rightarrow> int list \<Rightarrow> 'x fit_call list \<Rightarrow> 'x fit_call list \<times> (error + 'm)" where
  "train_lr_model lib x_train y_train fits =
     (let lr_clf = \<lparr>penalty = PENALTY, class_weight = ''balanced''\<rparr>
      in (fits @ [(lr_clf, x_train, y_train)], lr_fit lib lr_clf x_train y_train))"

subsection \<open>evaluate\<close>

text \<open>
  The two bunches of scores. A fold's bunch holds one number per score and the support;
  the bunch \<open>classify_kfold\<close> returns holds the per-fold lists of precision, recall and
  F-score and the two means. While the folds are running its \<open>cv\<close> and \<open>roc\<close> are not
  set yet, which is the unit type here.
\<close>

record ('p, 'a) ev_bunch =
  cv :: 'a
  roc :: 'a
  precision :: 'p
  recall :: 'p
  fscore :: 'p

record ('p, 'a) fold_bunch = "('p, 'a) ev_bunch" +
  supp :: "nat list option"

definition evaluate ::
  "('x, 'm) sklearn \<Rightarrow> 'm \<Rightarrow> 'x \<Rightarrow> int list \<Rightarrow> error + (real, real) fold_bunch" where
  "evaluate lib model x_test y_test =
     (case lr_score lib model x_test y_test of
        Inl e \<Rightarrow> Inl e
      | Inr ev_cv \<Rightarrow>
     (case lr_predict_proba lib model x_test of
        Inl e \<Rightarrow> Inl e
      | Inr proba \<Rightarrow>
     (case column1 proba of
        Inl e \<Rightarrow> Inl e
      | Inr y_pred_lr \<Rightarrow>
     (case roc_auc_score lib y_test y_pred_lr of
        Inl e \<Rightarrow> Inl e
      | Inr ev_roc \<Rightarrow>
     (case lr_predict lib model x_test of
        Inl e \<Rightarrow> Inl e
      | Inr y_pred \<Rightarrow>
     (case prf_evaluator lib y_test y_pred EVAL_AVERAGE of
        Inl e \<Rightarrow> Inl e
      | Inr (ev_precision, ev_recall, ev_fscore, ev_supp) \<Rightarrow>
          Inr \<lparr>cv = ev_cv, roc = ev_roc, precision = ev_precision, recall = ev_recall,
               fscore = ev_fscore, supp = ev_supp\<rparr>))))))"

subsection \<open>classify_kfold\<close>

text \<open>
  \<open>run_fold\<close> is the first part of the loop body: the batches of the fold, the training
  and the evaluation. \<open>kfold_step\<close> is the whole body: it appends the fold's scores to the
  lists. An exception of any call leaves the function; nothing catches it.
\<close>

definition run_fold ::
  "('x, 'm) sklearn \<Rightarrow> 'x \<Rightarrow> int list \<Rightarrow> nat list \<times> nat list \<Rightarrow> 'x fit_call list \<Rightarrow>
     'x fit_call list \<times> (error + (real, real) fold_bunch)" where
  "run_fold lib x y indices fits =
     (case indices of (train_indices, test_indices) \<Rightarrow>
     (case getrows lib x train_indices of
        Inl e \<Rightarrow> (fits, Inl e)
      | Inr x_train \<Rightarrow>
     (case getrows lib x test_indices of
        Inl e \<Rightarrow> (fits, Inl e)
      | Inr x_test \<Rightarrow>
     (case np_take y train_indices of
        Inl e \<Rightarrow> (fits, Inl e)
      | Inr y_train \<Rightarrow>
     (case np_take y test_indices of
        Inl e \<Rightarrow> (fits, Inl e)
      | Inr y_test \<Rightarrow>
     (case train_lr_model lib x_train y_train fits of
        (fits', Inl e) \<Rightarrow> (fits', Inl e)
      | (fits', Inr lr_model) \<Rightarrow> (fits', evaluate lib lr_model x_test y_test)))))))"

type_synonym kfold_lists = "(real list, unit) ev_bunch \<times> real list \<times> real list"

definition kfold_step ::
  "('x, 'm) sklearn \<Rightarrow> 'x \<Rightarrow> int list \<Rightarrow> nat list \<times> nat list \<Rightarrow>
     'x fit_call list \<times> kfold_lists \<Rightarrow> 'x fit_call list \<times> (error + kfold_lists)" where
  "kfold_step lib x y indices s =
     (case s of (fits, evaluation, cv_mean, roc_mean) \<Rightarrow>
     (case run_fold lib x y indices fits of
        (fits', Inl e) \<Rightarrow> (fits', Inl e)
      | (fits', Inr fold_ev) \<Rightarrow>
          (fits',
           Inr (evaluation\<lparr>precision := precision evaluation @ [precision fold_ev],
                           recall := recall evaluation @ [recall fold_ev],
                           fscore := fscore evaluation @ [fscore fold_ev]\<rparr>,
                cv_mean @ [cv fold_ev],
                roc_mean @ [roc fold_ev]))))"

fun kfold_loop ::
  "('x, 'm) sklearn \<Rightarrow> 'x \<Rightarrow> int list \<Rightarrow> (nat list \<times> nat list) list \<Rightarrow>
     'x fit_call list \<times> kfold_lists \<Rightarrow> 'x fit_call list \<times> (error + kfold_lists)" where
  "kfold_loop lib x y [] s = (fst s, Inr (snd s))"
| "kfold_loop lib x y (indices # folds) s =
     (case kfold_step lib x y indices s of
        (fits, Inl e) \<Rightarrow> (fits, Inl e)
      | (fits, Inr s1) \<Rightarrow> kfold_loop lib x y folds (fits, s1))"

definition classify_kfold ::
  "('x, 'm) sklearn \<Rightarrow> 'x \<Rightarrow> int list \<Rightarrow>
     'x fit_call list \<times> (error + (real list, real option) ev_bunch)" where
  "classify_kfold lib x y =
     (case skf_split lib KFOLD_SPLITS True x y of
        Inl e \<Rightarrow> ([], Inl e)
      | Inr folds \<Rightarrow>
     (case kfold_loop lib x y folds
             ([], \<lparr>cv = (), roc = (), precision = [], recall = [], fscore = []\<rparr>, [], []) of
        (fits, Inl e) \<Rightarrow> (fits, Inl e)
      | (fits, Inr (evaluation, cv_mean, roc_mean)) \<Rightarrow>
          (fits,
           Inr \<lparr>cv = np_mean cv_mean, roc = np_mean roc_mean,
                precision = precision evaluation, recall = recall evaluation,
                fscore = fscore evaluation\<rparr>)))"


section \<open>Notions used in the statements\<close>

text \<open>\<open>sep.join(xs)\<close> of Python.\<close>

fun join_lines :: "string \<Rightarrow> string list \<Rightarrow> string" where
  "join_lines sep [] = []"
| "join_lines sep [x] = x"
| "join_lines sep (x # y # ys) = x @ sep @ join_lines sep (y # ys)"

text \<open>
  The label and the path that one round of \<open>construct_data\<close> gives a file name, and the
  loop with the subscripts removed: \<open>build\<close> runs over the file names themselves. The
  loop of the source is shown equal to it before anything is proved about it.
\<close>

definition label_of :: "string list \<Rightarrow> string \<Rightarrow> int" where
  "label_of dep_fnames fn = (if fn \<in> set dep_fnames then 0 else 1)"

definition path_of :: "string list \<Rightarrow> string \<Rightarrow> string \<Rightarrow> string \<Rightarrow> string" where
  "path_of dep_fnames dep_dir non_dep_dir fn =
     (if fn \<in> set dep_fnames then os_path_join dep_dir fn else os_path_join non_dep_dir fn)"

fun build ::
  "(string \<rightharpoonup> string) \<Rightarrow> (string \<Rightarrow> error + string) \<Rightarrow> string list \<Rightarrow> string \<Rightarrow> string \<Rightarrow>
     string list \<Rightarrow> string list \<times> bunch \<Rightarrow> string list \<times> (error + bunch)" where
  "build fs decode dep_fnames dep_dir non_dep_dir [] s = (fst s, Inr (snd s))"
| "build fs decode dep_fnames dep_dir non_dep_dir (fn # fns) s =
     (let p = path_of dep_fnames dep_dir non_dep_dir fn
      in case process_post fs decode p of
           Inl e \<Rightarrow> (fst s @ [p], Inl e)
         | Inr t \<Rightarrow>
             build fs decode dep_fnames dep_dir non_dep_dir fns
               (fst s @ [p],
                (snd s)\<lparr>target := target (snd s) @ [label_of dep_fnames fn],
                        filepath := filepath (snd s) @ [p],
                        data := data (snd s) @ [t]\<rparr>))"

text \<open>
  The directory a name was listed from. \<open>listed\<close> pairs every name of the two listings
  with its directory, in the order in which \<open>construct_data\<close> concatenates them; the
  exchanges of \<open>random_shuffle\<close> depend on positions only, so shuffling \<open>listed\<close> with the same
  \<open>pick\<close> tells which directory the name at each position of \<open>filenames\<close> came from.
\<close>

datatype category = Depression | NonDepression

definition listed :: "string list \<Rightarrow> string list \<Rightarrow> (category \<times> string) list" where
  "listed dep_fnames non_dep_fnames =
     map (Pair Depression) dep_fnames @ map (Pair NonDepression) non_dep_fnames"

text \<open>
  The recoding on the lines of the examples: a line of ASCII bytes without a backslash
  has no escape sequence, and \<open>unicode-escape\<close> decoding followed by UTF-8 encoding
  returns it unchanged. This instance covers only such lines and reports every other
  line as undecodable.
\<close>

definition plain_decode :: "string \<Rightarrow> error + string" where
  "plain_decode line =
     (if list_all (\<lambda>c. c \<noteq> CHR 0x5C \<and> of_char c < (128::nat)) line then Inr line
      else Inl UnicodeDecodeError)"

text \<open>Example file systems: a blank file, a corpus with one file name in both directories,
  and a corpus of two files.\<close>

definition blank_fs :: "string \<rightharpoonup> string" where
  "blank_fs = [''./mixed_depression/blank.txt'' \<mapsto> '' \<newline>\<newline>'']"

definition shared_fs :: "string \<rightharpoonup> string" where
  "shared_fs = [''./mixed_depression/a.txt'' \<mapsto> ''sad\<newline>'',
                ''./mixed_non_depression/a.txt'' \<mapsto> ''fine\<newline>'']"

definition small_fs :: "string \<rightharpoonup> string" where
  "small_fs = [''./mixed_depression/a.txt'' \<mapsto> ''sad\<newline>'',
               ''./mixed_non_depression/b.txt'' \<mapsto> ''fine\<newline>'']"

text \<open>
  What scikit-learn documents about its TF-IDF vectorizer: it is the count vectorizer
  with the same arguments followed by the TF-IDF transformer, and the transformer
  returns a matrix of the shape of the one it is given.
\<close>

definition tfidf_contract :: "('x, 'm) sklearn \<Rightarrow> bool" where
  "tfidf_contract lib \<longleftrightarrow>
     (\<forall>p docs. tfidf_fit_transform lib p docs =
        (case count_fit_transform lib p docs of
           Inl e \<Rightarrow> Inl e
         | Inr counts \<Rightarrow> tfidf_transform lib counts)) \<and>
     (\<forall>counts weighted. tfidf_transform lib counts = Inr weighted \<longrightarrow>
        shape lib weighted = shape lib counts)"

subsection \<open>A small library instance for the examples\<close>

text \<open>
  The theorems below hold for every library. To apply them to concrete inputs the
  examples use this small instance: matrices are lists of rows, the count vectorizer has
  one column per distinct n-gram of the words of two or more bytes that white space
  separates, the transformer divides every row by its sum, the splitter deals the positions round robin into the folds and refuses, as
  scikit-learn's does, fewer than two folds, more folds than samples and a label vector
  in which every class has fewer members than there are folds, and the classifier
  refuses, as the liblinear solver does, training labels of a single class. A fitted
  model is the share of label 1 among its training labels, which it predicts as the
  probability of class 1 for every row.
\<close>

fun split_words :: "string \<Rightarrow> string \<Rightarrow> string list" where
  "split_words cur [] = (if cur = [] then [] else [cur])"
| "split_words cur (c # cs) =
     (if isspace c then (if cur = [] then [] else [cur]) @ split_words [] cs
      else split_words (cur @ [c]) cs)"

definition demo_ngrams :: "nat \<times> nat \<Rightarrow> string \<Rightarrow> string list" where
  "demo_ngrams bounds doc =
     (let tokens = filter (\<lambda>w. 2 \<le> length w) (split_words [] doc)
      in concat (map (\<lambda>n. map (\<lambda>i. join_lines '' '' (take n (drop i tokens)))
                               [0..<length tokens + 1 - n])
                     [fst bounds..<snd bounds + 1]))"

definition demo_count :: "vec_params \<Rightarrow> string list \<Rightarrow> error + real list list" where
  "demo_count p docs =
     (let vocabulary = remdups (concat (map (demo_ngrams (ngram_range p)) docs))
      in if vocabulary = [] then Inl ValueError
         else Inr (map (\<lambda>doc. map (\<lambda>g. real (count_list (demo_ngrams (ngram_range p) doc) g))
                                   vocabulary) docs))"

definition demo_tfidf :: "real list list \<Rightarrow> error + real list list" where
  "demo_tfidf counts =
     Inr (map (\<lambda>row. if sum_list row = 0 then row else map (\<lambda>v. v / sum_list row) row) counts)"

definition demo_shape :: "real list list \<Rightarrow> nat \<times> nat" where
  "demo_shape m = (length m, case m of [] \<Rightarrow> 0 | row # rest \<Rightarrow> length row)"

definition demo_split ::
  "nat \<Rightarrow> bool \<Rightarrow> real list list \<Rightarrow> int list \<Rightarrow> error + (nat list \<times> nat list) list" where
  "demo_split n s x y =
     (if n < 2 \<or> length y < n \<or> list_all (\<lambda>c. count_list y c < n) (remdups y)
      then Inl ValueError
      else Inr (map (\<lambda>k. (filter (\<lambda>i. i mod n \<noteq> k) [0..<length y],
                           filter (\<lambda>i. i mod n = k) [0..<length y])) [0..<n]))"

definition demo_fit :: "lr_params \<Rightarrow> real list list \<Rightarrow> int list \<Rightarrow> error + real" where
  "demo_fit p x y =
     (if length (remdups y) < 2 then Inl ValueError
      else Inr (real (count_list y 1) / real (length y)))"

definition demo_label :: "real \<Rightarrow> int" where
  "demo_label m = (if 1 / 2 \<le> m then 1 else 0)"

definition demo_score :: "real \<Rightarrow> real list list \<Rightarrow> int list \<Rightarrow> error + real" where
  "demo_score m x y = Inr (real (count_list y (demo_label m)) / real (length y))"

definition demo_predict_proba :: "real \<Rightarrow> real list list \<Rightarrow> error + ndarray2" where
  "demo_predict_proba m x = Inr (2, map (\<lambda>row. [1 - m, m]) x)"

definition demo_predict :: "real \<Rightarrow> real list list \<Rightarrow> error + int list" where
  "demo_predict m x = Inr (map (\<lambda>row. demo_label m) x)"

definition demo_roc :: "int list \<Rightarrow> real list \<Rightarrow> error + real" where
  "demo_roc y scores =
     (let pos = map snd (filter (\<lambda>ls. fst ls = 1) (zip y scores));
          neg = map snd (filter (\<lambda>ls. fst ls \<noteq> 1) (zip y scores))
      in if pos = [] \<or> neg = [] then Inl ValueError
         else Inr (sum_list (map (\<lambda>p. sum_list (map (\<lambda>n. if n < p then 1 else if n = p then 1 / 2 else 0) neg)) pos)
                   / real (length pos * length neg)))"

definition demo_prf ::
  "int list \<Rightarrow> int list \<Rightarrow> string \<Rightarrow> error + real \<times> real \<times> real \<times> nat list option" where
  "demo_prf y y_pred average =
     (let tp = real (length (filter (\<lambda>tp. fst tp = 1 \<and> snd tp = 1) (zip y y_pred)));
          fp = real (length (filter (\<lambda>tp. fst tp \<noteq> 1 \<and> snd tp = 1) (zip y y_pred)));
          fn = real (length (filter (\<lambda>tp. fst tp = 1 \<and> snd tp \<noteq> 1) (zip y y_pred)));
          p = (if tp + fp = 0 then 0 else tp / (tp + fp));
          r = (if tp + fn = 0 then 0 else tp / (tp + fn));
          f = (if p + r = 0 then 0 else 2 * p * r / (p + r))
      in Inr (p, r, f, None))"

definition demo_lib :: "(real list list, real) sklearn" where
  "demo_lib =
     \<lparr>count_fit_transform = demo_count,
      tfidf_fit_transform =
        (\<lambda>p docs. case demo_count p docs of Inl e \<Rightarrow> Inl e | Inr counts \<Rightarrow> demo_tfidf counts),
      tfidf_transform = demo_tfidf,
      shape = demo_shape,
      getrows = np_take,
      skf_split = demo_split,
      lr_fit = demo_fit,
      lr_score = demo_score,
      lr_predict_proba = demo_predict_proba,
      lr_predict = demo_predict,
      roc_auc_score = demo_roc,
      prf_evaluator = demo_prf\<rparr>"

text \<open>
  The inputs of the examples: twenty one-column rows with ten labels 0 followed by ten
  labels 1, and a corpus whose depression directory is empty and whose non-depression
  directory lists ten files, every file holding the line \<open>hello\<close>.
\<close>

definition demo_x :: "real list list" where
  "demo_x = replicate 20 [1]"

definition demo_y :: "int list" where
  "demo_y = replicate 10 0 @ replicate 10 1"

definition hello_fs :: "string \<rightharpoonup> string" where
  "hello_fs = (\<lambda>path. Some ''hello\<newline>'')"

definition ten_names :: "string list" where
  "ten_names = [''p0.txt'', ''p1.txt'', ''p2.txt'', ''p3.txt'', ''p4.txt'',
                ''p5.txt'', ''p6.txt'', ''p7.txt'', ''p8.txt'', ''p9.txt'']"

section \<open>Properties of the corpus loader\<close>

subsection \<open>The loops of process_post and construct_data\<close>

lemma post_loop_decoded:
  "map decode (filter (\<lambda>l. strip l \<noteq> []) ls) = map Inr ds \<Longrightarrow>
   post_loop decode ls acc = Inr (acc @ concat (map (\<lambda>l. strip l @ '' '') ds))"
proof (induction ls arbitrary: acc ds)
  case Nil
  then show ?case by simp
next
  case (Cons l ls)
  show ?case
  proof (cases "strip l = []")
    case True
    with Cons show ?thesis by simp
  next
    case False
    with Cons.prems obtain d ds' where ds: "ds = d # ds'" "decode l = Inr d"
      "map decode (filter (\<lambda>l. strip l \<noteq> []) ls) = map Inr ds'"
      by (cases ds) auto
    with False Cons.IH [OF ds(3)] show ?thesis by simp
  qed
qed

lemma concat_sep_join:
  "concat (map (\<lambda>l. l @ sep) xs) = (if xs = [] then [] else join_lines sep xs @ sep)"
  by (induction sep xs rule: join_lines.induct) auto

lemma post_loop_blank:
  "\<forall>l\<in>set ls. strip l = [] \<Longrightarrow> post_loop decode ls acc = Inr acc"
  by (induction ls arbitrary: acc) auto

lemma construct_step_eq:
  "index < length (filenames d) \<Longrightarrow> length (filepath d) = index \<Longrightarrow>
   construct_step fs decode dep dd nd index (opened, d) =
   (opened @ [path_of dep dd nd (filenames d ! index)],
    case process_post fs decode (path_of dep dd nd (filenames d ! index)) of
      Inl e \<Rightarrow> Inl e
    | Inr t \<Rightarrow> Inr (d\<lparr>target := target d @ [label_of dep (filenames d ! index)],
                     filepath := filepath d @ [path_of dep dd nd (filenames d ! index)],
                     data := data d @ [t]\<rparr>))"
  by (cases "filenames d ! index \<in> set dep")
     (simp_all add: construct_step_def path_of_def label_of_def Let_def nth_append
        split: sum.splits)

lemma construct_loop_build:
  "length (filepath d) = k \<Longrightarrow> n \<le> length (filenames d) \<Longrightarrow> k \<le> n \<Longrightarrow>
   construct_loop fs decode dep dd nd [k..<n] (opened, d) =
   build fs decode dep dd nd (take (n - k) (drop k (filenames d))) (opened, d)"
proof (induction "n - k" arbitrary: k opened d)
  case 0
  then show ?case by simp
next
  case (Suc m)
  then have kn: "k < n" and m: "m = n - Suc k" by auto
  have upt: "[k..<n] = k # [Suc k..<n]" using kn by (simp add: upt_conv_Cons)
  have names: "take (n - k) (drop k (filenames d)) =
      filenames d ! k # take (n - Suc k) (drop (Suc k) (filenames d))"
    using kn Suc.prems(2)
    by (metis Cons_nth_drop_Suc Suc_diff_Suc less_le_trans take_Suc_Cons)
  have step: "construct_step fs decode dep dd nd k (opened, d) =
     (opened @ [path_of dep dd nd (filenames d ! k)],
      case process_post fs decode (path_of dep dd nd (filenames d ! k)) of
        Inl e \<Rightarrow> Inl e
      | Inr t \<Rightarrow> Inr (d\<lparr>target := target d @ [label_of dep (filenames d ! k)],
                       filepath := filepath d @ [path_of dep dd nd (filenames d ! k)],
                       data := data d @ [t]\<rparr>))"
    using kn Suc.prems by (intro construct_step_eq) simp_all
  show ?case
  proof (cases "process_post fs decode (path_of dep dd nd (filenames d ! k))")
    case (Inl e)
    then show ?thesis
      by (simp add: upt names step Let_def)
  next
    case (Inr t)
    let ?d' = "d\<lparr>target := target d @ [label_of dep (filenames d ! k)],
                  filepath := filepath d @ [path_of dep dd nd (filenames d ! k)],
                  data := data d @ [t]\<rparr>"
    have ih: "construct_loop fs decode dep dd nd [Suc k..<n]
          (opened @ [path_of dep dd nd (filenames d ! k)], ?d') =
        build fs decode dep dd nd (take (n - Suc k) (drop (Suc k) (filenames ?d')))
          (opened @ [path_of dep dd nd (filenames d ! k)], ?d')"
      using kn Suc.prems by (intro Suc.hyps(1) [OF m]) simp_all
    show ?thesis
      using ih Inr by (simp add: upt names step Let_def)
  qed
qed

lemma build_result:
  "build fs decode dep dd nd fns (opened, d) = (opened', Inr d') \<Longrightarrow>
   filenames d' = filenames d \<and>
   target d' = target d @ map (label_of dep) fns \<and>
   filepath d' = filepath d @ map (path_of dep dd nd) fns \<and>
   opened' = opened @ map (path_of dep dd nd) fns \<and>
   (\<exists>ts. data d' = data d @ ts \<and>
      map (\<lambda>fn. process_post fs decode (path_of dep dd nd fn)) fns = map Inr ts)"
proof (induction fns arbitrary: opened d)
  case Nil
  then show ?case by simp
next
  case (Cons fn fns)
  from Cons.prems obtain t where t: "process_post fs decode (path_of dep dd nd fn) = Inr t"
    by (cases "process_post fs decode (path_of dep dd nd fn)") (auto simp: Let_def)
  let ?d1 = "d\<lparr>target := target d @ [label_of dep fn],
                filepath := filepath d @ [path_of dep dd nd fn],
                data := data d @ [t]\<rparr>"
  from Cons.prems t have
    "build fs decode dep dd nd fns (opened @ [path_of dep dd nd fn], ?d1) = (opened', Inr d')"
    by (simp add: Let_def)
  from Cons.IH [OF this] t show ?case by auto
qed

lemma build_opened:
  "build fs decode dep dd nd fns (opened, d) = (opened', r) \<Longrightarrow>
   set opened' \<subseteq> set opened \<union> path_of dep dd nd ` set fns"
proof (induction fns arbitrary: opened d)
  case Nil
  then show ?case by auto
next
  case (Cons fn fns)
  show ?case
  proof (cases "process_post fs decode (path_of dep dd nd fn)")
    case (Inl e)
    with Cons.prems show ?thesis by (auto simp: Let_def)
  next
    case (Inr t)
    with Cons.prems Cons.IH show ?thesis by (fastforce simp: Let_def)
  qed
qed

lemma build_succeeds:
  "\<forall>fn\<in>set fns. \<exists>t. process_post fs decode (path_of dep dd nd fn) = Inr t \<Longrightarrow>
   \<exists>d'. build fs decode dep dd nd fns (opened, d) = (opened @ map (path_of dep dd nd) fns, Inr d')"
proof (induction fns arbitrary: opened d)
  case Nil
  then show ?case by simp
next
  case (Cons fn fns)
  then obtain t where t: "process_post fs decode (path_of dep dd nd fn) = Inr t" by auto
  from Cons.prems have "\<forall>fn\<in>set fns. \<exists>t. process_post fs decode (path_of dep dd nd fn) = Inr t"
    by simp
  from Cons.IH [OF this, of "opened @ [path_of dep dd nd fn]"
      "d\<lparr>target := target d @ [label_of dep fn],
         filepath := filepath d @ [path_of dep dd nd fn],
         data := data d @ [t]\<rparr>"] t
  show ?case by (simp add: Let_def)
qed

lemma construct_data_build:
  "construct_data fs decode pick dep non dd nd =
   build fs decode dep dd nd (random_shuffle pick (dep @ non))
     ([], \<lparr>filenames = random_shuffle pick (dep @ non), filepath = [], data = [], target = []\<rparr>)"
  unfolding construct_data_def Let_def
  by (subst construct_loop_build) simp_all


lemma construct_data_result:
  assumes "construct_data fs decode pick dep non dd nd = (opened, Inr d)"
  shows "filenames d = random_shuffle pick (dep @ non)"
    and "target d = map (label_of dep) (filenames d)"
    and "filepath d = map (path_of dep dd nd) (filenames d)"
    and "opened = filepath d"
    and "map (process_post fs decode) (filepath d) = map Inr (data d)"
  using build_result [OF assms [unfolded construct_data_build]] by (auto simp: comp_def)

lemma construct_data_opened:
  assumes "construct_data fs decode pick dep non dd nd = (opened, r)"
  shows "set opened \<subseteq> path_of dep dd nd ` set (random_shuffle pick (dep @ non))"
  using build_opened [OF assms [unfolded construct_data_build]] by simp

subsection \<open>The shuffle is a rearrangement\<close>

lemma random_shuffle_loop_mset:
  "\<forall>i\<in>set idxs. i < length x \<Longrightarrow> mset (random_shuffle_loop pick idxs x) = mset x"
proof (induction idxs arbitrary: x)
  case Nil
  then show ?case by simp
next
  case (Cons i idxs)
  have i: "i < length x" using Cons.prems by simp
  have "pick i mod (i + 1) < i + 1" by (rule mod_less_divisor) simp
  with i have j: "pick i mod (i + 1) < length x" by linarith
  have "mset (random_shuffle_loop pick idxs (x[i := x ! (pick i mod (i + 1)), pick i mod (i + 1) := x ! i]))
      = mset (x[i := x ! (pick i mod (i + 1)), pick i mod (i + 1) := x ! i])"
    using Cons.prems by (intro Cons.IH) simp
  also have "\<dots> = mset x" by (rule mset_swap [OF j i])
  finally show ?case by (simp add: Let_def)
qed

lemma random_shuffle_loop_map:
  "\<forall>i\<in>set idxs. i < length x \<Longrightarrow>
   random_shuffle_loop pick idxs (map f x) = map f (random_shuffle_loop pick idxs x)"
proof (induction idxs arbitrary: x)
  case Nil
  then show ?case by simp
next
  case (Cons i idxs)
  have i: "i < length x" using Cons.prems by simp
  have "pick i mod (i + 1) < i + 1" by (rule mod_less_divisor) simp
  with i have j: "pick i mod (i + 1) < length x" by linarith
  let ?x' = "x[i := x ! (pick i mod (i + 1)), pick i mod (i + 1) := x ! i]"
  have "random_shuffle_loop pick idxs (map f ?x') = map f (random_shuffle_loop pick idxs ?x')"
    using Cons.prems by (intro Cons.IH) simp
  then show ?case using i j by (simp add: Let_def map_update)
qed

lemma random_shuffle_mset: "mset (random_shuffle pick x) = mset x"
  unfolding random_shuffle_def by (rule random_shuffle_loop_mset) auto

lemma random_shuffle_set: "set (random_shuffle pick x) = set x"
  using random_shuffle_mset [of pick x] by (rule mset_eq_setD)

lemma random_shuffle_length: "length (random_shuffle pick x) = length x"
  using random_shuffle_mset [of pick x] by (rule mset_eq_length)

lemma random_shuffle_map: "random_shuffle pick (map f x) = map f (random_shuffle pick x)"
  unfolding random_shuffle_def by (simp add: random_shuffle_loop_map)

lemma filenames_listed:
  "random_shuffle pick (dep @ non) = map snd (random_shuffle pick (listed dep non))"
  by (simp add: random_shuffle_map [symmetric] listed_def comp_def)

subsection \<open>Paths of listed names\<close>

lemma takeWhile_rev_suffix:
  assumes "\<forall>c\<in>set g. P c" and "a = [] \<or> \<not> P (last a)"
  shows "takeWhile P (rev (a @ g)) = rev g"
proof (cases a rule: rev_cases)
  case Nil
  with assms show ?thesis by simp
next
  case (snoc b c)
  with assms show ?thesis by (simp add: takeWhile_tail)
qed

lemma os_path_join_plain:
  "CHR ''/'' \<notin> set b \<Longrightarrow>
   os_path_join a b = (if a = [] \<or> last a = CHR ''/'' then a else a @ ''/'') @ b"
  by (cases b) (auto simp: os_path_join_def)

lemma os_path_join_inj:
  assumes eq: "os_path_join a g = os_path_join b f"
    and g: "CHR ''/'' \<notin> set g" and f: "CHR ''/'' \<notin> set f"
  shows "g = f"
proof -
  let ?P = "\<lambda>c. c \<noteq> CHR ''/''"
  let ?pre = "\<lambda>a. if a = [] \<or> last a = CHR ''/'' then a else a @ ''/''"
  have pre: "?pre a = [] \<or> \<not> ?P (last (?pre a))" for a :: string by simp
  from eq g f have "?pre a @ g = ?pre b @ f" by (simp add: os_path_join_plain)
  then have "takeWhile ?P (rev (?pre a @ g)) = takeWhile ?P (rev (?pre b @ f))" by simp
  moreover have "takeWhile ?P (rev (?pre a @ g)) = rev g"
    using g pre [of a] by (intro takeWhile_rev_suffix) auto
  moreover have "takeWhile ?P (rev (?pre b @ f)) = rev f"
    using f pre [of b] by (intro takeWhile_rev_suffix) auto
  ultimately show ?thesis by simp
qed

subsection \<open>What a completed run of construct_data holds\<close>

lemma construct_data_lengths:
  assumes "construct_data fs decode pick dep non dd nd = (opened, Inr d)"
  shows "length (filenames d) = length dep + length non"
    and "length (target d) = length (filenames d)"
    and "length (filepath d) = length (filenames d)"
    and "length (data d) = length (filenames d)"
proof -
  note r = construct_data_result [OF assms]
  show "length (filenames d) = length dep + length non"
    using r(1) by (simp add: random_shuffle_length)
  show "length (target d) = length (filenames d)" using r(2) by simp
  show fp: "length (filepath d) = length (filenames d)" using r(3) by simp
  show "length (data d) = length (filenames d)"
    using arg_cong [OF r(5), of length] fp by simp
qed

lemma construct_data_succeeds:
  assumes "\<forall>fn\<in>set dep. \<exists>t. process_post fs decode (os_path_join dd fn) = Inr t"
    and "\<forall>fn\<in>set non. \<exists>t. process_post fs decode (os_path_join nd fn) = Inr t"
  shows "\<exists>opened d. construct_data fs decode pick dep non dd nd = (opened, Inr d)"
proof -
  have "\<forall>fn\<in>set (random_shuffle pick (dep @ non)).
      \<exists>t. process_post fs decode (path_of dep dd nd fn) = Inr t"
    using assms by (auto simp: random_shuffle_set path_of_def)
  from build_succeeds [OF this] show ?thesis
    unfolding construct_data_build by blast
qed

lemma label_of_cases: "label_of dep fn = 0 \<or> label_of dep fn = 1"
  by (simp add: label_of_def)

lemma listed_category:
  assumes "set dep \<inter> set non = {}" and "(c, n) \<in> set (listed dep non)"
  shows "n \<in> set dep \<longleftrightarrow> c = Depression"
  using assms by (auto simp: listed_def)

lemma count_label_zero:
  "count_list (map (label_of dep) names) 0 = length (filter (\<lambda>n. n \<in> set dep) names)"
  by (induction names) (simp_all add: label_of_def)

lemma length_filter_mset:
  "mset xs = mset ys \<Longrightarrow> length (filter P xs) = length (filter P ys)"
  by (metis mset_filter size_mset)

lemma construct_data_labels_disjoint:
  assumes disj: "set dep \<inter> set non = {}"
    and run: "construct_data fs decode pick dep non dd nd = (opened, Inr d)"
  shows "\<forall>i<length (target d).
           (target d ! i = 0 \<longleftrightarrow> fst (random_shuffle pick (listed dep non) ! i) = Depression) \<and>
           (target d ! i = 1 \<longleftrightarrow> fst (random_shuffle pick (listed dep non) ! i) = NonDepression)"
    and "count_list (target d) 0 = length dep"
proof -
  note r = construct_data_result [OF run]
  let ?S = "random_shuffle pick (listed dep non)"
  have names: "filenames d = map snd ?S" using r(1) by (simp add: filenames_listed)
  have len: "length (target d) = length ?S" using r(2) names by simp
  show "\<forall>i<length (target d).
           (target d ! i = 0 \<longleftrightarrow> fst (?S ! i) = Depression) \<and>
           (target d ! i = 1 \<longleftrightarrow> fst (?S ! i) = NonDepression)"
  proof (intro allI impI)
    fix i assume i: "i < length (target d)"
    then have "?S ! i \<in> set ?S" using len by simp
    then have "(fst (?S ! i), snd (?S ! i)) \<in> set (listed dep non)"
      by (simp add: random_shuffle_set)
    from listed_category [OF disj this]
    have c: "snd (?S ! i) \<in> set dep \<longleftrightarrow> fst (?S ! i) = Depression" .
    have "target d ! i = label_of dep (snd (?S ! i))"
      using r(2) names i len by simp
    with c show "(target d ! i = 0 \<longleftrightarrow> fst (?S ! i) = Depression) \<and>
           (target d ! i = 1 \<longleftrightarrow> fst (?S ! i) = NonDepression)"
      by (cases "fst (?S ! i)") (auto simp: label_of_def)
  qed
  have "count_list (target d) 0 = length (filter (\<lambda>n. n \<in> set dep) (random_shuffle pick (dep @ non)))"
    using r(1) r(2) by (simp add: count_label_zero)
  also have "\<dots> = length (filter (\<lambda>n. n \<in> set dep) (dep @ non))"
    by (rule length_filter_mset) (rule random_shuffle_mset)
  also have "\<dots> = length dep"
  proof -
    have "filter (\<lambda>n. n \<in> set dep) non = []" using disj by (auto simp: filter_empty_conv)
    then show ?thesis by simp
  qed
  finally show "count_list (target d) 0 = length dep" .
qed

lemma construct_data_empty_dep:
  assumes "construct_data fs decode pick [] non dd nd = (opened, Inr d)"
  shows "target d = replicate (length non) 1"
proof -
  note r = construct_data_result [OF assms]
  have "target d = map (\<lambda>fn. 1) (filenames d)" using r(2) by (simp add: label_of_def)
  also have "\<dots> = replicate (length (filenames d)) 1" by (simp add: map_replicate_const)
  finally show ?thesis using r(1) by (simp add: random_shuffle_length)
qed

section \<open>The loop of classify_kfold\<close>

lemma run_fold_result:
  assumes "run_fold lib x y indices fits = (fits', r)"
  shows "(fits' = fits \<and> (\<exists>e. r = Inl e)) \<or>
         (\<exists>x_train x_test y_train y_test.
            getrows lib x (fst indices) = Inr x_train \<and>
            getrows lib x (snd indices) = Inr x_test \<and>
            np_take y (fst indices) = Inr y_train \<and>
            np_take y (snd indices) = Inr y_test \<and>
            fits' = fits @ [(\<lparr>penalty = PENALTY, class_weight = ''balanced''\<rparr>, x_train, y_train)] \<and>
            r = (case lr_fit lib \<lparr>penalty = PENALTY, class_weight = ''balanced''\<rparr> x_train y_train of
                   Inl e \<Rightarrow> Inl e
                 | Inr lr_model \<Rightarrow> evaluate lib lr_model x_test y_test))"
  using assms
  by (cases indices)
     (auto simp: run_fold_def train_lr_model_def Let_def split: sum.splits)

lemma run_fold_success:
  assumes "run_fold lib x y indices fits = (fits', Inr fold_ev)"
  shows "\<exists>x_train x_test y_train y_test lr_model.
            getrows lib x (fst indices) = Inr x_train \<and>
            getrows lib x (snd indices) = Inr x_test \<and>
            np_take y (fst indices) = Inr y_train \<and>
            np_take y (snd indices) = Inr y_test \<and>
            fits' = fits @ [(\<lparr>penalty = PENALTY, class_weight = ''balanced''\<rparr>, x_train, y_train)] \<and>
            lr_fit lib \<lparr>penalty = PENALTY, class_weight = ''balanced''\<rparr> x_train y_train =
              Inr lr_model \<and>
            evaluate lib lr_model x_test y_test = Inr fold_ev"
proof -
  let ?p = "\<lparr>penalty = PENALTY, class_weight = ''balanced''\<rparr>"
  from run_fold_result [OF assms] obtain x_train x_test y_train y_test where
    b: "getrows lib x (fst indices) = Inr x_train" "getrows lib x (snd indices) = Inr x_test"
      "np_take y (fst indices) = Inr y_train" "np_take y (snd indices) = Inr y_test"
      "fits' = fits @ [(?p, x_train, y_train)]"
    and r: "Inr fold_ev = (case lr_fit lib ?p x_train y_train of
                   Inl e \<Rightarrow> Inl e
                 | Inr lr_model \<Rightarrow> evaluate lib lr_model x_test y_test)"
    by auto
  from r obtain lr_model where "lr_fit lib ?p x_train y_train = Inr lr_model"
    "evaluate lib lr_model x_test y_test = Inr fold_ev"
    by (cases "lr_fit lib ?p x_train y_train") simp_all
  with b show ?thesis by blast
qed

lemma run_fold_log:
  "run_fold lib x y indices fits =
     (fits @ fst (run_fold lib x y indices []), snd (run_fold lib x y indices []))"
  by (cases indices)
     (auto simp: run_fold_def train_lr_model_def Let_def split: sum.splits)

lemma run_fold_calls:
  assumes "run_fold lib x y indices fits = (fits', r)"
  shows "\<exists>calls. fits' = fits @ calls \<and> length calls \<le> 1 \<and>
           list_all (\<lambda>c. fst c = \<lparr>penalty = PENALTY, class_weight = ''balanced''\<rparr>) calls"
  using run_fold_result [OF assms] by auto

lemma kfold_loop_calls:
  "kfold_loop lib x y folds (fits, s) = (fits', r) \<Longrightarrow>
   \<exists>calls. fits' = fits @ calls \<and> length calls \<le> length folds \<and>
     list_all (\<lambda>c. fst c = \<lparr>penalty = PENALTY, class_weight = ''balanced''\<rparr>) calls"
proof (induction folds arbitrary: fits s)
  case Nil
  then show ?case by simp
next
  case (Cons indices folds)
  obtain evaluation cv_mean roc_mean where s: "s = (evaluation, cv_mean, roc_mean)"
    by (cases s)
  obtain fits1 r1 where rf: "run_fold lib x y indices fits = (fits1, r1)"
    by (cases "run_fold lib x y indices fits")
  from run_fold_calls [OF rf] obtain c1 where
    c1: "fits1 = fits @ c1" "length c1 \<le> 1"
      "list_all (\<lambda>c. fst c = \<lparr>penalty = PENALTY, class_weight = ''balanced''\<rparr>) c1"
    by blast
  show ?case
  proof (cases r1)
    case (Inl e)
    with Cons.prems s rf have "fits' = fits1" by (simp add: kfold_step_def)
    with c1 show ?thesis by auto
  next
    case (Inr fold_ev)
    with Cons.prems s rf obtain s1 where
      "kfold_loop lib x y folds (fits1, s1) = (fits', r)"
      by (simp add: kfold_step_def)
    from Cons.IH [OF this] obtain c2 where
      c2: "fits' = fits1 @ c2" "length c2 \<le> length folds"
        "list_all (\<lambda>c. fst c = \<lparr>penalty = PENALTY, class_weight = ''balanced''\<rparr>) c2"
      by blast
    have "fits' = fits @ (c1 @ c2)" using c1(1) c2(1) by simp
    moreover have "length (c1 @ c2) \<le> length (indices # folds)" using c1(2) c2(2) by simp
    moreover have "list_all (\<lambda>c. fst c = \<lparr>penalty = PENALTY, class_weight = ''balanced''\<rparr>) (c1 @ c2)"
      using c1(3) c2(3) by simp
    ultimately show ?thesis by blast
  qed
qed

lemma kfold_loop_success:
  "kfold_loop lib x y folds (fits, evaluation, cv_mean, roc_mean) =
     (fits', Inr (evaluation', cv_mean', roc_mean')) \<Longrightarrow>
   \<exists>ces. map (\<lambda>indices. run_fold lib x y indices []) folds =
            map (\<lambda>ce. ([fst ce], Inr (snd ce))) ces \<and>
     fits' = fits @ map fst ces \<and>
     precision evaluation' = precision evaluation @ map (\<lambda>ce. precision (snd ce)) ces \<and>
     recall evaluation' = recall evaluation @ map (\<lambda>ce. recall (snd ce)) ces \<and>
     fscore evaluation' = fscore evaluation @ map (\<lambda>ce. fscore (snd ce)) ces \<and>
     cv_mean' = cv_mean @ map (\<lambda>ce. cv (snd ce)) ces \<and>
     roc_mean' = roc_mean @ map (\<lambda>ce. roc (snd ce)) ces"
proof (induction folds arbitrary: fits evaluation cv_mean roc_mean)
  case Nil
  then show ?case by simp
next
  case (Cons indices folds)
  obtain fits1 r1 where rf: "run_fold lib x y indices fits = (fits1, r1)"
    by (cases "run_fold lib x y indices fits")
  from Cons.prems rf obtain fold_ev where r1: "r1 = Inr fold_ev"
    by (cases r1) (simp_all add: kfold_step_def)
  from run_fold_success [OF rf [unfolded r1]] obtain c where fits1: "fits1 = fits @ [c]"
    by blast
  have first: "run_fold lib x y indices [] = ([c], Inr fold_ev)"
    using rf r1 fits1 run_fold_log [of lib x y indices fits]
    by (cases "run_fold lib x y indices []") simp
  let ?ev1 = "evaluation\<lparr>precision := precision evaluation @ [precision fold_ev],
                          recall := recall evaluation @ [recall fold_ev],
                          fscore := fscore evaluation @ [fscore fold_ev]\<rparr>"
  have "kfold_loop lib x y folds (fits1, ?ev1, cv_mean @ [cv fold_ev], roc_mean @ [roc fold_ev]) =
      (fits', Inr (evaluation', cv_mean', roc_mean'))"
    using Cons.prems rf r1 by (simp add: kfold_step_def)
  from Cons.IH [OF this] obtain ces where ces:
    "map (\<lambda>indices. run_fold lib x y indices []) folds = map (\<lambda>ce. ([fst ce], Inr (snd ce))) ces"
    "fits' = fits1 @ map fst ces"
    "precision evaluation' = precision ?ev1 @ map (\<lambda>ce. precision (snd ce)) ces"
    "recall evaluation' = recall ?ev1 @ map (\<lambda>ce. recall (snd ce)) ces"
    "fscore evaluation' = fscore ?ev1 @ map (\<lambda>ce. fscore (snd ce)) ces"
    "cv_mean' = (cv_mean @ [cv fold_ev]) @ map (\<lambda>ce. cv (snd ce)) ces"
    "roc_mean' = (roc_mean @ [roc fold_ev]) @ map (\<lambda>ce. roc (snd ce)) ces"
    by blast
  show ?case
    by (rule exI [of _ "(c, fold_ev) # ces"]) (use ces first fits1 in simp)
qed

lemma classify_kfold_success:
  assumes "classify_kfold lib x y = (fits, Inr ev)"
  shows "\<exists>folds ces.
           skf_split lib KFOLD_SPLITS True x y = Inr folds \<and>
           map (\<lambda>indices. run_fold lib x y indices []) folds =
             map (\<lambda>ce. ([fst ce], Inr (snd ce))) ces \<and>
           fits = map fst ces \<and>
           precision ev = map (\<lambda>ce. precision (snd ce)) ces \<and>
           recall ev = map (\<lambda>ce. recall (snd ce)) ces \<and>
           fscore ev = map (\<lambda>ce. fscore (snd ce)) ces \<and>
           cv ev = np_mean (map (\<lambda>ce. cv (snd ce)) ces) \<and>
           roc ev = np_mean (map (\<lambda>ce. roc (snd ce)) ces)"
proof -
  from assms obtain folds where split: "skf_split lib KFOLD_SPLITS True x y = Inr folds"
    by (cases "skf_split lib KFOLD_SPLITS True x y") (simp_all add: classify_kfold_def)
  let ?init = "\<lparr>cv = (), roc = (), precision = [], recall = [], fscore = []\<rparr> :: (real list, unit) ev_bunch"
  from assms split obtain evaluation cv_mean roc_mean where
    loop: "kfold_loop lib x y folds ([], ?init, [], []) = (fits, Inr (evaluation, cv_mean, roc_mean))"
    and ev: "ev = \<lparr>cv = np_mean cv_mean, roc = np_mean roc_mean,
                precision = precision evaluation, recall = recall evaluation,
                fscore = fscore evaluation\<rparr>"
    by (auto simp: classify_kfold_def split: prod.splits sum.splits)
  from kfold_loop_success [OF loop] ev split show ?thesis by auto
qed


section \<open>Claims about the corpus loader\<close>

text \<open>
  C3, as amended. For a readable file whose non-blank lines all decode, \<open>process_post\<close>
  returns every non-blank line, recoded and stripped, followed by one space: the lines
  joined by single spaces and then one more space after the last line, and the empty
  string when the file has no non-blank line.
\<close>

theorem process_post_text:
  assumes "fs file_path = Some content"
    and "map decode (filter (\<lambda>line. strip line \<noteq> []) (readlines content)) = map Inr decoded"
  shows "process_post fs decode file_path =
           Inr (concat (map (\<lambda>line. strip line @ '' '') decoded)) \<and>
         process_post fs decode file_path =
           Inr (if decoded = [] then [] else join_lines '' '' (map strip decoded) @ '' '')"
proof -
  have "process_post fs decode file_path =
      Inr (concat (map (\<lambda>line. strip line @ '' '') decoded))"
    using assms by (simp add: process_post_def post_loop_decoded)
  moreover have "concat (map (\<lambda>line. strip line @ '' '') decoded) =
      concat (map (\<lambda>l. l @ '' '') (map strip decoded))"
    by (simp add: comp_def)
  ultimately show ?thesis
    by (simp only: concat_sep_join) simp
qed

theorem process_post_text_witness:
  "[''post.txt'' \<mapsto> ''a\<newline>\<newline>b\<newline>''] ''post.txt'' = Some ''a\<newline>\<newline>b\<newline>'' \<and>
   map plain_decode (filter (\<lambda>line. strip line \<noteq> []) (readlines ''a\<newline>\<newline>b\<newline>'')) =
     map Inr [''a\<newline>'', ''b\<newline>''] \<and>
   process_post [''post.txt'' \<mapsto> ''a\<newline>\<newline>b\<newline>''] plain_decode ''post.txt'' = Inr ''a b ''"
proof -
  have h1: "[''post.txt'' \<mapsto> ''a\<newline>\<newline>b\<newline>''] ''post.txt'' = Some ''a\<newline>\<newline>b\<newline>''"
    by simp
  have h2: "map plain_decode (filter (\<lambda>line. strip line \<noteq> []) (readlines ''a\<newline>\<newline>b\<newline>'')) =
     map Inr [''a\<newline>'', ''b\<newline>'']"
    by (simp add: readlines_def strip_def isspace_def plain_decode_def)
  show ?thesis
    using h1 h2
      process_post_text [of "[''post.txt'' \<mapsto> ''a\<newline>\<newline>b\<newline>'']" "''post.txt''"
        "''a\<newline>\<newline>b\<newline>''" plain_decode "[''a\<newline>'', ''b\<newline>'']", OF h1 h2]
    by (simp add: strip_def isspace_def)
qed

text \<open>
  C3 as stated fails: on a file with the lines \<open>a\<close>, an empty line and \<open>b\<close> the result
  is \<open>a b\<close> followed by a space, which is neither the stripped non-blank lines joined by
  single spaces nor the non-blank lines as read joined by single spaces.
\<close>

theorem process_post_join_counterexample:
  "process_post [''post.txt'' \<mapsto> ''a\<newline>\<newline>b\<newline>''] plain_decode ''post.txt'' = Inr ''a b '' \<and>
   join_lines '' '' (map strip (filter (\<lambda>line. strip line \<noteq> []) (readlines ''a\<newline>\<newline>b\<newline>''))) = ''a b'' \<and>
   process_post [''post.txt'' \<mapsto> ''a\<newline>\<newline>b\<newline>''] plain_decode ''post.txt'' \<noteq>
     Inr (join_lines '' '' (map strip (filter (\<lambda>line. strip line \<noteq> []) (readlines ''a\<newline>\<newline>b\<newline>'')))) \<and>
   process_post [''post.txt'' \<mapsto> ''a\<newline>\<newline>b\<newline>''] plain_decode ''post.txt'' \<noteq>
     Inr (join_lines '' '' (filter (\<lambda>line. strip line \<noteq> []) (readlines ''a\<newline>\<newline>b\<newline>'')))"
  by (simp add: process_post_def readlines_def strip_def isspace_def plain_decode_def)

text \<open>
  C10. On a file whose lines are all blank (the empty file included) \<open>process_post\<close>
  returns the empty string, and \<open>construct_data\<close> keeps that empty text as the record of
  the file: every listed file has a record, and the record at a position whose path is
  the blank file holds the empty text.
\<close>

theorem blank_file_record:
  assumes "fs file_path = Some content"
    and "\<forall>line\<in>set (readlines content). strip line = []"
  shows "process_post fs decode file_path = Inr [] \<and>
         (construct_data fs decode pick dep_fnames non_dep_fnames dep_dir non_dep_dir =
            (opened, Inr d) \<and> i < length (filepath d) \<and> filepath d ! i = file_path \<longrightarrow>
          length (data d) = length dep_fnames + length non_dep_fnames \<and>
          length (filepath d) = length (data d) \<and> data d ! i = [])"
proof -
  have blank: "process_post fs decode file_path = Inr []"
    using assms by (simp add: process_post_def post_loop_blank)
  have "length (data d) = length dep_fnames + length non_dep_fnames \<and>
        length (filepath d) = length (data d) \<and> data d ! i = []"
    if run: "construct_data fs decode pick dep_fnames non_dep_fnames dep_dir non_dep_dir =
        (opened, Inr d)"
      and i: "i < length (filepath d)" and p: "filepath d ! i = file_path"
  proof -
    note r = construct_data_result [OF run]
    have len: "length (filepath d) = length (data d)"
      using arg_cong [OF r(5), of length] by simp
    have "length (filepath d) = length dep_fnames + length non_dep_fnames"
      using r(1) r(3) by (simp add: random_shuffle_length)
    moreover have "map (process_post fs decode) (filepath d) ! i = map Inr (data d) ! i"
      using r(5) by simp
    then have "process_post fs decode (filepath d ! i) = Inr (data d ! i)"
      using i len by simp
    with p blank have "data d ! i = []" by simp
    ultimately show ?thesis using len by simp
  qed
  with blank show ?thesis by blast
qed

theorem blank_file_record_witness:
  "blank_fs ''./mixed_depression/blank.txt'' = Some '' \<newline>\<newline>'' \<and>
   list_all (\<lambda>line. strip line = []) (readlines '' \<newline>\<newline>'') \<and>
   process_post blank_fs plain_decode ''./mixed_depression/blank.txt'' = Inr [] \<and>
   construct_data blank_fs plain_decode (\<lambda>i. 0) [''blank.txt''] [] DEP NON_DEP =
     ([''./mixed_depression/blank.txt''],
      Inr \<lparr>filenames = [''blank.txt''], filepath = [''./mixed_depression/blank.txt''],
           data = [[]], target = [0]\<rparr>)"
proof -
  have h1: "blank_fs ''./mixed_depression/blank.txt'' = Some '' \<newline>\<newline>''"
    by (simp add: blank_fs_def)
  have h2: "\<forall>line\<in>set (readlines '' \<newline>\<newline>''). strip line = []"
    by (simp add: readlines_def strip_def isspace_def)
  have run: "construct_data blank_fs plain_decode (\<lambda>i. 0) [''blank.txt''] [] DEP NON_DEP =
     ([''./mixed_depression/blank.txt''],
      Inr \<lparr>filenames = [''blank.txt''], filepath = [''./mixed_depression/blank.txt''],
           data = [[]], target = [0]\<rparr>)"
    by (simp add: construct_data_def random_shuffle_def construct_step_def os_path_join_def DEP_def
        process_post_def blank_fs_def readlines_def strip_def isspace_def Let_def)
  show ?thesis
    using h1 h2 run
      blank_file_record [of blank_fs "''./mixed_depression/blank.txt''" "'' \<newline>\<newline>''"
        plain_decode, OF h1 h2]
    by (simp add: list_all_iff)
qed

text \<open>
  C6. For every pair of directories whose listed files can all be read and decoded,
  \<open>construct_data\<close> returns a Dataset; its texts and its labels have the same length,
  which is the number of files listed across both directories, and every label is 0
  or 1.
\<close>

theorem dataset_lengths:
  assumes "\<forall>fn\<in>set dep_fnames. \<exists>t. process_post fs decode (os_path_join dep_dir fn) = Inr t"
    and "\<forall>fn\<in>set non_dep_fnames. \<exists>t. process_post fs decode (os_path_join non_dep_dir fn) = Inr t"
  shows "\<exists>opened d.
           construct_data fs decode pick dep_fnames non_dep_fnames dep_dir non_dep_dir =
             (opened, Inr d) \<and>
           length (data d) = length (target d) \<and>
           length (target d) = length dep_fnames + length non_dep_fnames \<and>
           (\<forall>l\<in>set (target d). l = 0 \<or> l = 1)"
proof -
  from construct_data_succeeds [OF assms] obtain opened d where
    run: "construct_data fs decode pick dep_fnames non_dep_fnames dep_dir non_dep_dir =
      (opened, Inr d)"
    by blast
  note l = construct_data_lengths [OF run]
  have "\<forall>l\<in>set (target d). l = 0 \<or> l = 1"
    using construct_data_result(2) [OF run] label_of_cases by auto
  with run l show ?thesis by auto
qed

theorem dataset_lengths_witness:
  "list_all (\<lambda>fn. process_post small_fs plain_decode (os_path_join DEP fn) = Inr ''sad '') [''a.txt''] \<and>
   list_all (\<lambda>fn. process_post small_fs plain_decode (os_path_join NON_DEP fn) = Inr ''fine '') [''b.txt''] \<and>
   (\<exists>opened d.
      construct_data small_fs plain_decode (\<lambda>i. 0) [''a.txt''] [''b.txt''] DEP NON_DEP =
        (opened, Inr d) \<and>
      length (data d) = length (target d) \<and> length (target d) = 2 \<and>
      list_all (\<lambda>l. l = 0 \<or> l = 1) (target d))"
proof -
  have h1: "\<forall>fn\<in>set [''a.txt'']. \<exists>t. process_post small_fs plain_decode (os_path_join DEP fn) = Inr t"
    by (simp add: os_path_join_def DEP_def process_post_def small_fs_def readlines_def
        strip_def isspace_def plain_decode_def)
  have h2: "\<forall>fn\<in>set [''b.txt'']. \<exists>t. process_post small_fs plain_decode (os_path_join NON_DEP fn) = Inr t"
    by (simp add: os_path_join_def NON_DEP_def process_post_def small_fs_def readlines_def
        strip_def isspace_def plain_decode_def)
  have e1: "process_post small_fs plain_decode (os_path_join DEP ''a.txt'') = Inr ''sad ''"
    by (simp add: os_path_join_def DEP_def process_post_def small_fs_def readlines_def
        strip_def isspace_def plain_decode_def)
  have e2: "process_post small_fs plain_decode (os_path_join NON_DEP ''b.txt'') = Inr ''fine ''"
    by (simp add: os_path_join_def NON_DEP_def process_post_def small_fs_def readlines_def
        strip_def isspace_def plain_decode_def)
  show ?thesis
    using e1 e2 dataset_lengths [of "[''a.txt'']" small_fs plain_decode DEP "[''b.txt'']" NON_DEP
        "\<lambda>i. 0", OF h1 h2]
    by (simp add: list_all_iff numeral_2_eq_2)
qed

text \<open>
  C9. When a file name occurs in both listings, every record of a completed run that
  carries the name has label 0 and a path inside the depression directory, and there
  are at least two such records. In every run, completed or not, the copy in the
  non-depression directory is never opened, provided the listed names are plain names
  (no slash, as a directory listing returns them) and the two copies have different
  paths.
\<close>

theorem shared_name_uses_dep_copy:
  assumes "fn \<in> set dep_fnames" and "fn \<in> set non_dep_fnames"
    and "construct_data fs decode pick dep_fnames non_dep_fnames dep_dir non_dep_dir =
           (opened, r)"
  shows "(\<forall>d. r = Inr d \<longrightarrow>
            2 \<le> count_list (filenames d) fn \<and>
            (\<forall>i<length (filenames d). filenames d ! i = fn \<longrightarrow>
               target d ! i = 0 \<and> filepath d ! i = os_path_join dep_dir fn)) \<and>
         ((\<forall>n\<in>set (dep_fnames @ non_dep_fnames). CHR ''/'' \<notin> set n) \<and>
          os_path_join dep_dir fn \<noteq> os_path_join non_dep_dir fn \<longrightarrow>
          os_path_join non_dep_dir fn \<notin> set opened)"
proof (intro conjI allI impI)
  fix d assume "r = Inr d"
  with assms(3) have run:
    "construct_data fs decode pick dep_fnames non_dep_fnames dep_dir non_dep_dir = (opened, Inr d)"
    by simp
  note res = construct_data_result [OF run]
  have "count_list (filenames d) fn = count (mset (dep_fnames @ non_dep_fnames)) fn"
    using res(1) by (simp add: count_mset [symmetric] random_shuffle_mset del: count_mset)
  also have "\<dots> = count_list dep_fnames fn + count_list non_dep_fnames fn"
    by (simp add: count_mset)
  finally have "count_list (filenames d) fn = count_list dep_fnames fn + count_list non_dep_fnames fn" .
  moreover have "0 < count_list dep_fnames fn" "0 < count_list non_dep_fnames fn"
    using assms(1,2) by (simp_all add: count_list_0_iff zero_less_iff_neq_zero)
  ultimately show "2 \<le> count_list (filenames d) fn" by linarith
next
  fix d i assume "r = Inr d" and i: "i < length (filenames d)" and n: "filenames d ! i = fn"
  with assms(3) have run:
    "construct_data fs decode pick dep_fnames non_dep_fnames dep_dir non_dep_dir = (opened, Inr d)"
    by simp
  note res = construct_data_result [OF run]
  show "target d ! i = 0" using res(2) i n assms(1) by (simp add: label_of_def)
  show "filepath d ! i = os_path_join dep_dir fn"
    using res(3) i n assms(1) by (simp add: path_of_def)
next
  assume h: "(\<forall>n\<in>set (dep_fnames @ non_dep_fnames). CHR ''/'' \<notin> set n) \<and>
      os_path_join dep_dir fn \<noteq> os_path_join non_dep_dir fn"
  show "os_path_join non_dep_dir fn \<notin> set opened"
  proof
    assume "os_path_join non_dep_dir fn \<in> set opened"
    with construct_data_opened [OF assms(3)]
    have "os_path_join non_dep_dir fn \<in>
        path_of dep_fnames dep_dir non_dep_dir ` set (dep_fnames @ non_dep_fnames)"
      by (auto simp: random_shuffle_set)
    then obtain g where
      g: "g \<in> set (dep_fnames @ non_dep_fnames)"
      and eq: "path_of dep_fnames dep_dir non_dep_dir g = os_path_join non_dep_dir fn"
      by (metis imageE)
    from h g assms(1) have sl: "CHR ''/'' \<notin> set g" "CHR ''/'' \<notin> set fn" by auto
    have "g = fn"
    proof (cases "g \<in> set dep_fnames")
      case True
      with eq have "os_path_join dep_dir g = os_path_join non_dep_dir fn"
        by (simp add: path_of_def)
      then show ?thesis using sl by (rule os_path_join_inj)
    next
      case False
      with eq have "os_path_join non_dep_dir g = os_path_join non_dep_dir fn"
        by (simp add: path_of_def)
      then show ?thesis using sl by (rule os_path_join_inj)
    qed
    with eq assms(1) h show False by (simp add: path_of_def)
  qed
qed

theorem shared_name_uses_dep_copy_witness:
  "''a.txt'' \<in> set [''a.txt''] \<and>
   construct_data shared_fs plain_decode (\<lambda>i. 0) [''a.txt''] [''a.txt''] DEP NON_DEP =
     ([''./mixed_depression/a.txt'', ''./mixed_depression/a.txt''],
      Inr \<lparr>filenames = [''a.txt'', ''a.txt''],
           filepath = [''./mixed_depression/a.txt'', ''./mixed_depression/a.txt''],
           data = [''sad '', ''sad ''], target = [0, 0]\<rparr>) \<and>
   list_all (\<lambda>n. CHR ''/'' \<notin> set n) ([''a.txt''] @ [''a.txt'']) \<and>
   os_path_join DEP ''a.txt'' \<noteq> os_path_join NON_DEP ''a.txt'' \<and>
   os_path_join NON_DEP ''a.txt'' \<notin>
     set [''./mixed_depression/a.txt'', ''./mixed_depression/a.txt'']"
proof -
  have h1: "''a.txt'' \<in> set [''a.txt'']" by simp
  have run: "construct_data shared_fs plain_decode (\<lambda>i. 0) [''a.txt''] [''a.txt''] DEP NON_DEP =
     ([''./mixed_depression/a.txt'', ''./mixed_depression/a.txt''],
      Inr \<lparr>filenames = [''a.txt'', ''a.txt''],
           filepath = [''./mixed_depression/a.txt'', ''./mixed_depression/a.txt''],
           data = [''sad '', ''sad ''], target = [0, 0]\<rparr>)"
    by (simp add: construct_data_def random_shuffle_def construct_step_def os_path_join_def DEP_def
        NON_DEP_def process_post_def shared_fs_def readlines_def strip_def isspace_def
        plain_decode_def Let_def upt_rec)
  have h3: "list_all (\<lambda>n. CHR ''/'' \<notin> set n) ([''a.txt''] @ [''a.txt''])" by simp
  have h4: "os_path_join DEP ''a.txt'' \<noteq> os_path_join NON_DEP ''a.txt''"
    by (simp add: os_path_join_def DEP_def NON_DEP_def)
  show ?thesis
    using h1 run h3 h4 shared_name_uses_dep_copy [OF h1 h1 run]
    by (simp add: list_all_iff)
qed

text \<open>
  C1 at a name listed in both directories. With \<open>a.txt\<close> in the depression directory
  and \<open>a.txt\<close> in the non-depression directory, both records get label 0 and the text
  of the depression directory's file, although the record at position 0 comes from the
  non-depression listing: two records carry label 0 and the depression directory lists
  one file.
\<close>

theorem construct_data_shared_name:
  "construct_data shared_fs plain_decode (\<lambda>i. 0) [''a.txt''] [''a.txt''] DEP NON_DEP =
     ([''./mixed_depression/a.txt'', ''./mixed_depression/a.txt''],
      Inr \<lparr>filenames = [''a.txt'', ''a.txt''],
           filepath = [''./mixed_depression/a.txt'', ''./mixed_depression/a.txt''],
           data = [''sad '', ''sad ''], target = [0, 0]\<rparr>) \<and>
   map fst (random_shuffle (\<lambda>i. 0) (listed [''a.txt''] [''a.txt''])) = [NonDepression, Depression] \<and>
   count_list [0, 0 :: int] 0 = 2 \<and> length [''a.txt''] = 1"
  by (simp add: construct_data_def random_shuffle_def construct_step_def os_path_join_def DEP_def
      NON_DEP_def process_post_def shared_fs_def readlines_def strip_def isspace_def
      plain_decode_def Let_def upt_rec listed_def)


section \<open>Claims about vectorizing, training and evaluation\<close>

lemma demo_run_scores:
  "snd (classify_kfold demo_lib demo_x demo_y) =
     Inr \<lparr>cv = Some (1 / 2), roc = Some (1 / 2), precision = replicate 10 (1 / 2),
          recall = replicate 10 1, fscore = replicate 10 (2 / 3)\<rparr>"
  by code_simp

lemma demo_run:
  "classify_kfold demo_lib demo_x demo_y =
     (fst (classify_kfold demo_lib demo_x demo_y),
      Inr \<lparr>cv = Some (1 / 2), roc = Some (1 / 2), precision = replicate 10 (1 / 2),
           recall = replicate 10 1, fscore = replicate 10 (2 / 3)\<rparr>)"
  using demo_run_scores by (simp add: prod_eq_iff)

text \<open>
  C5. When \<open>classify_kfold\<close> completes, the splitter returned folds, every fold was
  evaluated, and with the folds' evaluations in fold order: \<open>cv\<close> is the arithmetic mean
  of their accuracies and \<open>roc\<close> the arithmetic mean of their ROC-AUC scores (their sum
  over their number; \<open>None\<close>, NumPy's \<open>nan\<close>, when there is no fold), while \<open>precision\<close>,
  \<open>recall\<close> and \<open>fscore\<close> are the lists of the folds' values, in fold order.
\<close>

theorem kfold_means:
  assumes "classify_kfold lib x y = (fits, Inr ev)"
  shows "\<exists>folds fold_evs.
           skf_split lib KFOLD_SPLITS True x y = Inr folds \<and>
           map (\<lambda>indices. snd (run_fold lib x y indices [])) folds = map Inr fold_evs \<and>
           cv ev = (if fold_evs = [] then None
                    else Some (sum_list (map cv fold_evs) / real (length fold_evs))) \<and>
           roc ev = (if fold_evs = [] then None
                     else Some (sum_list (map roc fold_evs) / real (length fold_evs))) \<and>
           precision ev = map precision fold_evs \<and>
           recall ev = map recall fold_evs \<and>
           fscore ev = map fscore fold_evs"
proof -
  from classify_kfold_success [OF assms] obtain folds ces where
    split: "skf_split lib KFOLD_SPLITS True x y = Inr folds"
    and runs: "map (\<lambda>indices. run_fold lib x y indices []) folds =
        map (\<lambda>ce. ([fst ce], Inr (snd ce))) ces"
    and scores: "precision ev = map (\<lambda>ce. precision (snd ce)) ces"
      "recall ev = map (\<lambda>ce. recall (snd ce)) ces"
      "fscore ev = map (\<lambda>ce. fscore (snd ce)) ces"
      "cv ev = np_mean (map (\<lambda>ce. cv (snd ce)) ces)"
      "roc ev = np_mean (map (\<lambda>ce. roc (snd ce)) ces)"
    by blast
  let ?evs = "map snd ces"
  have "map snd (map (\<lambda>indices. run_fold lib x y indices []) folds) =
      map snd (map (\<lambda>ce. ([fst ce], Inr (snd ce))) ces)"
    using runs by simp
  then have "map (\<lambda>indices. snd (run_fold lib x y indices [])) folds = map Inr ?evs"
    by (simp add: comp_def)
  moreover have "cv ev = (if ?evs = [] then None
      else Some (sum_list (map cv ?evs) / real (length ?evs)))"
    using scores(4) by (simp add: np_mean_def comp_def)
  moreover have "roc ev = (if ?evs = [] then None
      else Some (sum_list (map roc ?evs) / real (length ?evs)))"
    using scores(5) by (simp add: np_mean_def comp_def)
  moreover have "precision ev = map precision ?evs" "recall ev = map recall ?evs"
    "fscore ev = map fscore ?evs"
    using scores(1-3) by (simp_all add: comp_def)
  ultimately show ?thesis using split by blast
qed

theorem kfold_means_witness:
  "snd (classify_kfold demo_lib demo_x demo_y) =
     Inr \<lparr>cv = Some (1 / 2), roc = Some (1 / 2), precision = replicate 10 (1 / 2),
          recall = replicate 10 1, fscore = replicate 10 (2 / 3)\<rparr> \<and>
   (\<exists>folds fold_evs.
      skf_split demo_lib KFOLD_SPLITS True demo_x demo_y = Inr folds \<and>
      map (\<lambda>indices. snd (run_fold demo_lib demo_x demo_y indices [])) folds = map Inr fold_evs \<and>
      Some (1 / 2) = (if fold_evs = [] then None
                      else Some (sum_list (map cv fold_evs) / real (length fold_evs))) \<and>
      replicate 10 (1 / 2) = map precision fold_evs)"
proof -
  from kfold_means [OF demo_run] obtain folds fold_evs where
    "skf_split demo_lib KFOLD_SPLITS True demo_x demo_y = Inr folds"
    "map (\<lambda>indices. snd (run_fold demo_lib demo_x demo_y indices [])) folds = map Inr fold_evs"
    "Some (1 / 2) = (if fold_evs = [] then None
                      else Some (sum_list (map cv fold_evs) / real (length fold_evs)))"
    "replicate 10 (1 / 2) = map precision fold_evs"
    by auto
  then have "\<exists>folds fold_evs.
      skf_split demo_lib KFOLD_SPLITS True demo_x demo_y = Inr folds \<and>
      map (\<lambda>indices. snd (run_fold demo_lib demo_x demo_y indices [])) folds = map Inr fold_evs \<and>
      Some (1 / 2) = (if fold_evs = [] then None
                      else Some (sum_list (map cv fold_evs) / real (length fold_evs))) \<and>
      replicate 10 (1 / 2) = map precision fold_evs"
    by blast
  with demo_run_scores show ?thesis by (rule conjI)
qed

text \<open>
  C7. \<open>train_lr_model\<close> fits a logistic regression configured with the L1 penalty and
  balanced class weights on the data it is given. In every run of \<open>classify_kfold\<close> each
  call of \<open>fit\<close> has that configuration, and in a completed run there is one call per
  fold, in fold order, on the rows and the labels at the fold's training indices.
\<close>

theorem kfold_trains_l1_balanced:
  assumes "classify_kfold lib x y = (fits, r)"
  shows "train_lr_model lib x_train y_train fits0 =
           (fits0 @ [(\<lparr>penalty = ''l1'', class_weight = ''balanced''\<rparr>, x_train, y_train)],
            lr_fit lib \<lparr>penalty = ''l1'', class_weight = ''balanced''\<rparr> x_train y_train) \<and>
         list_all (\<lambda>c. fst c = \<lparr>penalty = ''l1'', class_weight = ''balanced''\<rparr>) fits \<and>
         (\<forall>ev. r = Inr ev \<longrightarrow>
            (\<exists>folds.
               skf_split lib KFOLD_SPLITS True x y = Inr folds \<and>
               length fits = length folds \<and>
               (\<forall>k<length folds. \<exists>x_tr y_tr lr_model.
                  getrows lib x (fst (folds ! k)) = Inr x_tr \<and>
                  np_take y (fst (folds ! k)) = Inr y_tr \<and>
                  fits ! k = (\<lparr>penalty = ''l1'', class_weight = ''balanced''\<rparr>, x_tr, y_tr) \<and>
                  lr_fit lib \<lparr>penalty = ''l1'', class_weight = ''balanced''\<rparr> x_tr y_tr =
                    Inr lr_model)))"
proof (intro conjI allI impI)
  show "train_lr_model lib x_train y_train fits0 =
           (fits0 @ [(\<lparr>penalty = ''l1'', class_weight = ''balanced''\<rparr>, x_train, y_train)],
            lr_fit lib \<lparr>penalty = ''l1'', class_weight = ''balanced''\<rparr> x_train y_train)"
    by (simp add: train_lr_model_def PENALTY_def Let_def)
next
  show "list_all (\<lambda>c. fst c = \<lparr>penalty = ''l1'', class_weight = ''balanced''\<rparr>) fits"
  proof (cases "skf_split lib KFOLD_SPLITS True x y")
    case (Inl e)
    with assms show ?thesis by (simp add: classify_kfold_def)
  next
    case (Inr folds)
    let ?init = "\<lparr>cv = (), roc = (), precision = [], recall = [], fscore = []\<rparr> :: (real list, unit) ev_bunch"
    from assms Inr obtain r' where
      "kfold_loop lib x y folds ([], ?init, [], []) = (fits, r')"
      by (cases "kfold_loop lib x y folds ([], ?init, [], [])")
         (auto simp: classify_kfold_def split: sum.splits)
    from kfold_loop_calls [OF this] show ?thesis by (simp add: PENALTY_def)
  qed
next
  fix ev assume "r = Inr ev"
  with assms have run: "classify_kfold lib x y = (fits, Inr ev)" by simp
  from classify_kfold_success [OF run] obtain folds ces where
    split: "skf_split lib KFOLD_SPLITS True x y = Inr folds"
    and runs: "map (\<lambda>indices. run_fold lib x y indices []) folds =
        map (\<lambda>ce. ([fst ce], Inr (snd ce))) ces"
    and fits: "fits = map fst ces"
    by blast
  have len: "length folds = length ces" using arg_cong [OF runs, of length] by simp
  have "\<exists>x_tr y_tr lr_model.
          getrows lib x (fst (folds ! k)) = Inr x_tr \<and>
          np_take y (fst (folds ! k)) = Inr y_tr \<and>
          fits ! k = (\<lparr>penalty = ''l1'', class_weight = ''balanced''\<rparr>, x_tr, y_tr) \<and>
          lr_fit lib \<lparr>penalty = ''l1'', class_weight = ''balanced''\<rparr> x_tr y_tr = Inr lr_model"
    if k: "k < length folds" for k
  proof -
    have "map (\<lambda>indices. run_fold lib x y indices []) folds ! k =
        map (\<lambda>ce. ([fst ce], Inr (snd ce))) ces ! k"
      using runs by simp
    then have "run_fold lib x y (folds ! k) [] = ([fst (ces ! k)], Inr (snd (ces ! k)))"
      using k len by simp
    from run_fold_success [OF this] fits k len show ?thesis
      by (auto simp: PENALTY_def)
  qed
  with split fits len
  show "\<exists>folds.
          skf_split lib KFOLD_SPLITS True x y = Inr folds \<and>
          length fits = length folds \<and>
          (\<forall>k<length folds. \<exists>x_tr y_tr lr_model.
             getrows lib x (fst (folds ! k)) = Inr x_tr \<and>
             np_take y (fst (folds ! k)) = Inr y_tr \<and>
             fits ! k = (\<lparr>penalty = ''l1'', class_weight = ''balanced''\<rparr>, x_tr, y_tr) \<and>
             lr_fit lib \<lparr>penalty = ''l1'', class_weight = ''balanced''\<rparr> x_tr y_tr = Inr lr_model)"
    by auto
qed

theorem kfold_trains_l1_balanced_witness:
  "snd (classify_kfold demo_lib demo_x demo_y) =
     Inr \<lparr>cv = Some (1 / 2), roc = Some (1 / 2), precision = replicate 10 (1 / 2),
          recall = replicate 10 1, fscore = replicate 10 (2 / 3)\<rparr> \<and>
   list_all (\<lambda>c. fst c = \<lparr>penalty = ''l1'', class_weight = ''balanced''\<rparr>)
     (fst (classify_kfold demo_lib demo_x demo_y)) \<and>
   (\<exists>folds. skf_split demo_lib KFOLD_SPLITS True demo_x demo_y = Inr folds \<and>
      length (fst (classify_kfold demo_lib demo_x demo_y)) = length folds)"
proof -
  note t = kfold_trains_l1_balanced [OF demo_run]
  from t have "list_all (\<lambda>c. fst c = \<lparr>penalty = ''l1'', class_weight = ''balanced''\<rparr>)
     (fst (classify_kfold demo_lib demo_x demo_y))"
    by blast
  moreover from t have "\<exists>folds. skf_split demo_lib KFOLD_SPLITS True demo_x demo_y = Inr folds \<and>
      length (fst (classify_kfold demo_lib demo_x demo_y)) = length folds"
    by blast
  ultimately show ?thesis using demo_run_scores by blast
qed

text \<open>
  C4. Under what the library documents about its TF-IDF vectorizer (\<open>tfidf_contract\<close>),
  for every corpus: when the count vectorization raises, the TF-IDF vectorization raises
  the same error, and when both return a matrix the two matrices have the same shape.
  The script gives both vectorizers the same n-gram range, analyzer and encoding.
\<close>

theorem vectors_same_shape:
  assumes "tfidf_contract lib"
  shows "(\<forall>e. make_count_vectors lib raw_data = Inl e \<longrightarrow>
              make_tfidf_vectors lib raw_data = Inl e) \<and>
         (\<forall>x_counts x_tfidf.
            make_count_vectors lib raw_data = Inr x_counts \<and>
            make_tfidf_vectors lib raw_data = Inr x_tfidf \<longrightarrow>
            shape lib x_tfidf = shape lib x_counts)"
  using assms
  by (auto simp: tfidf_contract_def make_count_vectors_def make_tfidf_vectors_def
      split: sum.splits)

theorem vectors_same_shape_witness:
  "tfidf_contract demo_lib \<and>
   make_count_vectors demo_lib [''sad day'', ''good day''] =
     Inr [[1, 1, 0, 1, 0], [0, 0, 1, 1, 1]] \<and>
   make_tfidf_vectors demo_lib [''sad day'', ''good day''] =
     Inr [[1 / 3, 1 / 3, 0, 1 / 3, 0], [0, 0, 1 / 3, 1 / 3, 1 / 3]] \<and>
   shape demo_lib [[1 / 3, 1 / 3, 0, 1 / 3, 0], [0, 0, 1 / 3, 1 / 3, 1 / 3]] =
     shape demo_lib [[1, 1, 0, 1, 0], [0, 0, 1, 1, 1]]"
proof -
  have c: "tfidf_contract demo_lib"
    by (auto simp: tfidf_contract_def demo_lib_def demo_tfidf_def demo_shape_def
        split: list.splits sum.splits)
  have v1: "make_count_vectors demo_lib [''sad day'', ''good day''] =
     Inr [[1, 1, 0, 1, 0], [0, 0, 1, 1, 1]]"
    by code_simp
  have v2: "make_tfidf_vectors demo_lib [''sad day'', ''good day''] =
     Inr [[1 / 3, 1 / 3, 0, 1 / 3, 0], [0, 0, 1 / 3, 1 / 3, 1 / 3]]"
    by code_simp
  from vectors_same_shape [OF c, of "[''sad day'', ''good day'']"] v1 v2
  have "shape demo_lib [[1 / 3, 1 / 3, 0, 1 / 3, 0], [0, 0, 1 / 3, 1 / 3, 1 / 3]] =
     shape demo_lib [[1, 1, 0, 1, 0], [0, 0, 1, 1, 1]]"
    by blast
  with c v1 v2 show ?thesis by blast
qed

text \<open>
  C2, as amended. \<open>classify_kfold\<close> checks nothing itself and catches nothing. An error
  raised by the fold splitter leaves it before any call of \<open>fit\<close>. When the splitter
  returns folds and the batches of the first fold can be taken, the first fold's
  training is attempted, and an error raised by that \<open>fit\<close> leaves \<open>classify_kfold\<close>
  after this one call: it is not caught and nothing is retried. With a label vector
  that holds only the label 1 the training labels of a fold hold only the label 1, and
  no run calls \<open>fit\<close> more often than there are folds.
\<close>

theorem kfold_error_propagation:
  "(skf_split lib KFOLD_SPLITS True x y = Inl e \<longrightarrow> classify_kfold lib x y = ([], Inl e)) \<and>
   (skf_split lib KFOLD_SPLITS True x y = Inr (indices # folds) \<and>
    getrows lib x (fst indices) = Inr x_train \<and>
    getrows lib x (snd indices) = Inr x_test \<and>
    np_take y (fst indices) = Inr y_train \<and>
    np_take y (snd indices) = Inr y_test \<and>
    lr_fit lib \<lparr>penalty = ''l1'', class_weight = ''balanced''\<rparr> x_train y_train = Inl e \<longrightarrow>
    classify_kfold lib x y =
      ([(\<lparr>penalty = ''l1'', class_weight = ''balanced''\<rparr>, x_train, y_train)], Inl e)) \<and>
   (set y \<subseteq> {1} \<and> np_take y (fst indices) = Inr y_train \<longrightarrow> set y_train \<subseteq> {1}) \<and>
   (classify_kfold lib x y = (fits, r) \<and>
    skf_split lib KFOLD_SPLITS True x y = Inr all_folds \<longrightarrow>
    length fits \<le> length all_folds)"
proof (intro conjI impI)
  assume "skf_split lib KFOLD_SPLITS True x y = Inl e"
  then show "classify_kfold lib x y = ([], Inl e)" by (simp add: classify_kfold_def)
next
  assume h: "skf_split lib KFOLD_SPLITS True x y = Inr (indices # folds) \<and>
    getrows lib x (fst indices) = Inr x_train \<and>
    getrows lib x (snd indices) = Inr x_test \<and>
    np_take y (fst indices) = Inr y_train \<and>
    np_take y (snd indices) = Inr y_test \<and>
    lr_fit lib \<lparr>penalty = ''l1'', class_weight = ''balanced''\<rparr> x_train y_train = Inl e"
  then have "run_fold lib x y indices [] =
      ([(\<lparr>penalty = ''l1'', class_weight = ''balanced''\<rparr>, x_train, y_train)], Inl e)"
    by (cases indices) (simp add: run_fold_def train_lr_model_def PENALTY_def Let_def)
  with h show "classify_kfold lib x y =
      ([(\<lparr>penalty = ''l1'', class_weight = ''balanced''\<rparr>, x_train, y_train)], Inl e)"
    by (simp add: classify_kfold_def kfold_step_def)
next
  assume h: "set y \<subseteq> {1} \<and> np_take y (fst indices) = Inr y_train"
  then have ok: "list_all (\<lambda>i. i < length y) (fst indices)"
    and yt: "y_train = map (\<lambda>i. y ! i) (fst indices)"
    by (auto simp: np_take_def split: if_splits)
  show "set y_train \<subseteq> {1}"
  proof
    fix l assume "l \<in> set y_train"
    with yt obtain i where "i \<in> set (fst indices)" "l = y ! i" by auto
    with ok have "l \<in> set y" by (auto simp: list_all_iff)
    with h show "l \<in> {1}" by auto
  qed
next
  assume h: "classify_kfold lib x y = (fits, r) \<and>
    skf_split lib KFOLD_SPLITS True x y = Inr all_folds"
  let ?init = "\<lparr>cv = (), roc = (), precision = [], recall = [], fscore = []\<rparr> :: (real list, unit) ev_bunch"
  from h obtain r' where
    "kfold_loop lib x y all_folds ([], ?init, [], []) = (fits, r')"
    by (cases "kfold_loop lib x y all_folds ([], ?init, [], [])")
       (auto simp: classify_kfold_def split: sum.splits)
  from kfold_loop_calls [OF this] show "length fits \<le> length all_folds" by auto
qed

theorem kfold_error_propagation_witness:
  "skf_split demo_lib KFOLD_SPLITS True (replicate 5 [1]) (replicate 5 1) = Inl ValueError \<and>
   classify_kfold demo_lib (replicate 5 [1]) (replicate 5 1) = ([], Inl ValueError) \<and>
   skf_split demo_lib KFOLD_SPLITS True (replicate 10 [1]) (replicate 10 1) =
     Inr (([1, 2, 3, 4, 5, 6, 7, 8, 9], [0]) #
          map (\<lambda>k. (filter (\<lambda>i. i mod 10 \<noteq> k) [0..<10], filter (\<lambda>i. i mod 10 = k) [0..<10]))
            [1..<10]) \<and>
   getrows demo_lib (replicate 10 [1]) [1, 2, 3, 4, 5, 6, 7, 8, 9] = Inr (replicate 9 [1]) \<and>
   getrows demo_lib (replicate 10 [1]) [0] = Inr [[1]] \<and>
   np_take (replicate 10 (1 :: int)) [1, 2, 3, 4, 5, 6, 7, 8, 9] = Inr (replicate 9 1) \<and>
   np_take (replicate 10 (1 :: int)) [0] = Inr [1] \<and>
   lr_fit demo_lib \<lparr>penalty = ''l1'', class_weight = ''balanced''\<rparr> (replicate 9 [1]) (replicate 9 1) =
     Inl ValueError \<and>
   classify_kfold demo_lib (replicate 10 [1]) (replicate 10 1) =
     ([(\<lparr>penalty = ''l1'', class_weight = ''balanced''\<rparr>, replicate 9 [1], replicate 9 1)],
      Inl ValueError) \<and>
   set (replicate 10 (1 :: int)) \<subseteq> {1} \<and> set (replicate 9 (1 :: int)) \<subseteq> {1}"
proof -
  let ?F0 = "([1, 2, 3, 4, 5, 6, 7, 8, 9], [0]) :: nat list \<times> nat list"
  let ?FS = "map (\<lambda>k. (filter (\<lambda>i. i mod 10 \<noteq> k) [0..<10], filter (\<lambda>i. i mod 10 = k) [0..<10]))
            [1..<10] :: (nat list \<times> nat list) list"
  have a: "skf_split demo_lib KFOLD_SPLITS True (replicate 5 [1]) (replicate 5 1) = Inl ValueError"
    by code_simp
  have s: "skf_split demo_lib KFOLD_SPLITS True (replicate 10 [1]) (replicate 10 1) = Inr (?F0 # ?FS)"
    by code_simp
  have g1: "getrows demo_lib (replicate 10 [1]) (fst ?F0) = Inr (replicate 9 [1])"
    by code_simp
  have g2: "getrows demo_lib (replicate 10 [1]) (snd ?F0) = Inr [[1]]"
    by code_simp
  have n1: "np_take (replicate 10 (1 :: int)) (fst ?F0) = Inr (replicate 9 1)"
    by code_simp
  have n2: "np_take (replicate 10 (1 :: int)) (snd ?F0) = Inr [1]"
    by code_simp
  have f: "lr_fit demo_lib \<lparr>penalty = ''l1'', class_weight = ''balanced''\<rparr> (replicate 9 [1])
      (replicate 9 1) = Inl ValueError"
    by code_simp
  have y: "set (replicate 10 (1 :: int)) \<subseteq> {1}" by simp
  have c1: "classify_kfold demo_lib (replicate 5 [1]) (replicate 5 1) = ([], Inl ValueError)"
    using kfold_error_propagation [of demo_lib "replicate 5 [1]" "replicate 5 1" ValueError] a
    by blast
  have c2: "classify_kfold demo_lib (replicate 10 [1]) (replicate 10 1) =
     ([(\<lparr>penalty = ''l1'', class_weight = ''balanced''\<rparr>, replicate 9 [1], replicate 9 1)],
      Inl ValueError)"
    using kfold_error_propagation [of demo_lib "replicate 10 [1]" "replicate 10 1" ValueError
        ?F0 ?FS "replicate 9 [1]" "[[1]]" "replicate 9 1" "[1]"] s g1 g2 n1 n2 f
    by blast
  have c3: "set (replicate 9 (1 :: int)) \<subseteq> {1}"
    using kfold_error_propagation [of demo_lib "replicate 10 [1]" "replicate 10 1" ValueError
        ?F0 ?FS "replicate 9 [1]" "[[1]]" "replicate 9 1"] y n1
    by blast
  show ?thesis
    using a c1 s g1 g2 n1 n2 f c2 y c3 by simp
qed

text \<open>
  C2 as stated fails. The depression directory is empty and the non-depression directory
  lists ten files, so all ten labels are 1. The splitter accepts ten members of one
  class for ten folds, and the error is the classifier's, raised by the \<open>fit\<close> of the
  first fold: training has been attempted when it is raised.
\<close>

theorem single_class_trains_counterexample:
  "construct_data hello_fs plain_decode (\<lambda>i. 0) [] ten_names DEP NON_DEP =
     (map (os_path_join NON_DEP) (random_shuffle (\<lambda>i. 0) ten_names),
      Inr \<lparr>filenames = random_shuffle (\<lambda>i. 0) ten_names,
           filepath = map (os_path_join NON_DEP) (random_shuffle (\<lambda>i. 0) ten_names),
           data = replicate 10 ''hello '', target = replicate 10 1\<rparr>) \<and>
   make_count_vectors demo_lib (replicate 10 ''hello '') = Inr (replicate 10 [1]) \<and>
   classify_kfold demo_lib (replicate 10 [1]) (replicate 10 1) =
     ([(\<lparr>penalty = ''l1'', class_weight = ''balanced''\<rparr>, replicate 9 [1], replicate 9 1)],
      Inl ValueError) \<and>
   fst (classify_kfold demo_lib (replicate 10 [1]) (replicate 10 1)) \<noteq> []"
  by code_simp

end
